theory Spec2Isabelle
  imports Main "HOL-Library.Sublist"
begin

section \<open>Data model (types.ts)\<close>

text \<open>
  A JavaScript string is modelled as a \<^typ>\<open>string\<close>, one \<^typ>\<open>char\<close> per UTF-16 code
  unit below 256. A JavaScript number that holds a confidence is modelled as an
  \<^typ>\<open>int\<close>; \<open>parseInt\<close> is exact on digit strings of up to 15 digits, beyond that
  the source rounds to a double and the model does not.
\<close>

record Email =
  email_id :: string
  email_from :: string
  email_to :: string
  subject :: string
  body :: string
  timestamp :: int

datatype priority = low | medium | high | urgent

record TriageResult =
  emailId :: string
  category :: string
  priority :: priority
  assignedAgent :: string
  summary :: string
  resultActions :: "string list"
  requiresHumanReview :: bool

text \<open>Optional fields (\<open>suggestedActions?\<close>, \<open>escalate?\<close>) are options: \<open>None\<close> is \<open>undefined\<close>.\<close>

record AgentDecision =
  shouldHandle :: bool
  confidence :: int
  reasoning :: string
  suggestedActions :: "string list option"
  escalate :: "bool option"

text \<open>
  \<open>agentDecisions: Record<string, AgentDecision>\<close> is an object with string keys;
  \<open>Object.entries\<close> lists them in insertion order, so the model is an association list.
  The optional fields of \<open>EmailTriageState\<close> that the supervisor never assigns are left out.
\<close>

record EmailTriageState =
  email :: Email
  agentDecisions :: "(string \<times> AgentDecision) list"
  requiresEscalation :: bool

datatype agent = SpamFilter | CustomerSupport | Sales | HR

fun getName :: "agent \<Rightarrow> string" where
  "getName SpamFilter = ''SpamFilter''"
| "getName CustomerSupport = ''CustomerSupport''"
| "getName Sales = ''Sales''"
| "getName HR = ''HR''"

section \<open>Strings and regular expressions\<close>

abbreviation NL :: char where "NL \<equiv> CHR 0x0A"

text \<open>\<open>\d\<close> and \<open>\w\<close> of a JavaScript regular expression without the \<open>u\<close> flag.\<close>

definition is_digit :: "char \<Rightarrow> bool" where
  "is_digit c = (c \<in> set ''0123456789'')"

definition is_word :: "char \<Rightarrow> bool" where
  "is_word c =
     (c \<in> set ''abcdefghijklmnopqrstuvwxyzABCDEFGHIJKLMNOPQRSTUVWXYZ0123456789_'')"

text \<open>The characters that \<open>.\<close> does not match without the \<open>s\<close> flag (below 256: LF and CR).\<close>

definition is_line_terminator :: "char \<Rightarrow> bool" where
  "is_line_terminator c = (c = CHR 0x0A \<or> c = CHR 0x0D)"

text \<open>The characters that \<open>String.prototype.trim\<close> strips (below 256).\<close>

definition is_space :: "char \<Rightarrow> bool" where
  "is_space c =
     (c \<in> set [CHR 0x09, CHR 0x0A, CHR 0x0B, CHR 0x0C, CHR 0x0D, CHR 0x20, CHR 0xA0])"

definition trim :: "string \<Rightarrow> string" where
  "trim s = rev (dropWhile is_space (rev (dropWhile is_space s)))"

text \<open>\<open>s.split('\n')\<close>: never empty, \<open>''.split('\n')\<close> is \<open>['']\<close>.\<close>

fun split_nl :: "string \<Rightarrow> string list" where
  "split_nl [] = [[]]"
| "split_nl (c # cs) =
     (if c = NL then [] # split_nl cs
      else (case split_nl cs of [] \<Rightarrow> [[c]] | l # ls \<Rightarrow> (c # l) # ls))"

text \<open>\<open>parseInt\<close> on a string of decimal digits.\<close>

definition parseInt :: "string \<Rightarrow> int" where
  "parseInt ds = foldl (\<lambda>acc c. acc * 10 + (int (of_char c) - 48)) 0 ds"

text \<open>\<open>content.includes(pat)\<close>.\<close>

fun str_includes :: "string \<Rightarrow> string \<Rightarrow> bool" where
  "str_includes [] pat = (pat = [])"
| "str_includes (c # cs) pat = (prefix pat (c # cs) \<or> str_includes cs pat)"

text \<open>
  \<open>content.match(re)\<close> for a regular expression without the \<open>g\<close> flag: the matcher
  \<open>m\<close> is tried at every start position from left to right (the end of the input
  included), and the first success is the match. \<open>m\<close> returns the first capture group.
\<close>

fun regex_search :: "(string \<Rightarrow> 'a option) \<Rightarrow> string \<Rightarrow> 'a option" where
  "regex_search m [] = m []"
| "regex_search m (c # cs) =
     (case m (c # cs) of Some r \<Rightarrow> Some r | None \<Rightarrow> regex_search m cs)"

definition after_label :: "string \<Rightarrow> string \<Rightarrow> string option" where
  "after_label lbl s = (if prefix lbl s then Some (drop (length lbl) s) else None)"

text \<open>\<open>/CONFIDENCE: (\d+)/\<close> at one start position: the greedy run of digits, not empty.\<close>

definition match_confidence :: "string \<Rightarrow> string option" where
  "match_confidence s =
     (case after_label ''CONFIDENCE: '' s of
        None \<Rightarrow> None
      | Some rest \<Rightarrow>
          (let ds = takeWhile is_digit rest in if ds = [] then None else Some ds))"

text \<open>
  \<open>/REASONING: (.+?)(?=\n|$)/\<close> at one start position. The lazy group takes
  characters that are not line terminators until the next character is a line feed or
  the input ends; it takes at least one. A run that stops before a carriage return does
  not match at this position.
\<close>

definition match_reasoning :: "string \<Rightarrow> string option" where
  "match_reasoning s =
     (case after_label ''REASONING: '' s of
        None \<Rightarrow> None
      | Some rest \<Rightarrow>
          (let line = takeWhile (\<lambda>c. \<not> is_line_terminator c) rest;
               after = dropWhile (\<lambda>c. \<not> is_line_terminator c) rest
           in if line \<noteq> [] \<and> (after = [] \<or> hd after = NL) then Some line else None))"

text \<open>\<open>/ESCALATE: (true|false)/\<close> at one start position.\<close>

definition match_escalate :: "string \<Rightarrow> string option" where
  "match_escalate s =
     (case after_label ''ESCALATE: '' s of
        None \<Rightarrow> None
      | Some rest \<Rightarrow>
          (if prefix ''true'' rest then Some ''true''
           else if prefix ''false'' rest then Some ''false'' else None))"

text \<open>
  The lazy tail of \<open>(.+?)(?=\nESCALATE|$)\<close> with the \<open>s\<close> flag: any characters up to the
  first position where a line feed and \<open>ESCALATE\<close> follow, or to the end of the input.
\<close>

fun upto_escalate :: "string \<Rightarrow> string" where
  "upto_escalate [] = []"
| "upto_escalate (c # cs) =
     (if prefix (NL # ''ESCALATE'') (c # cs) then [] else c # upto_escalate cs)"

text \<open>\<open>/SUGGESTED_ACTIONS: (.+?)(?=\nESCALATE|$)/s\<close> at one start position: the group
  takes its first character whatever it is.\<close>

definition match_actions :: "string \<Rightarrow> string option" where
  "match_actions s =
     (case after_label ''SUGGESTED_ACTIONS: '' s of
        None \<Rightarrow> None
      | Some rest \<Rightarrow> (case rest of [] \<Rightarrow> None | c # cs \<Rightarrow> Some (c # upto_escalate cs)))"

section \<open>The evaluators (customerSupportAgent.ts, salesAgent.ts, hrAgent.ts, spamFilterAgent.ts)\<close>

text \<open>
  What \<open>await this.llm.invoke(prompt)\<close> gives: the promise rejects, or it resolves with a
  message whose \<open>content\<close> is a string or is not one (the cast \<open>as string\<close> checks nothing).
\<close>

datatype content = Text string | NonText

datatype llm_outcome = Rejected | Resolved content

datatype js_error = InvokeError | TypeError

text \<open>The parsing of the reply, the same lines in each of the four evaluators.\<close>

definition parseDecision :: "string \<Rightarrow> AgentDecision" where
  "parseDecision content =
     (let shouldHandle = str_includes content ''SHOULD_HANDLE: true'';
          confidenceMatch = regex_search match_confidence content;
          confidence = (case confidenceMatch of Some ds \<Rightarrow> parseInt ds | None \<Rightarrow> 50);
          reasoningMatch = regex_search match_reasoning content;
          reasoning = (case reasoningMatch of Some r \<Rightarrow> trim r | None \<Rightarrow> ''Analysis completed'');
          escalateMatch = regex_search match_escalate content;
          escalate = (case escalateMatch of Some e \<Rightarrow> e = ''true'' | None \<Rightarrow> False);
          actionsMatch = regex_search match_actions content;
          suggestedActions =
            (case actionsMatch of
               Some a \<Rightarrow> filter (\<lambda>action. length action > 0) (map trim (split_nl a))
             | None \<Rightarrow> [])
      in \<lparr>shouldHandle = shouldHandle, confidence = confidence, reasoning = reasoning,
          suggestedActions = Some suggestedActions, escalate = Some escalate\<rparr>)"

text \<open>
  The body of the \<open>try\<close> block: a rejected call raises, and so does a content that is not
  a string (\<open>content.match\<close> is not a function).
\<close>

definition evaluate_try :: "llm_outcome \<Rightarrow> js_error + AgentDecision" where
  "evaluate_try out =
     (case out of
        Rejected \<Rightarrow> Inl InvokeError
      | Resolved NonText \<Rightarrow> Inl TypeError
      | Resolved (Text c) \<Rightarrow> Inr (parseDecision c))"

text \<open>The \<open>catch\<close> block: \<open>escalate\<close> is true in CustomerSupportAgent only.\<close>

definition errorDecision :: "agent \<Rightarrow> AgentDecision" where
  "errorDecision ag =
     \<lparr>shouldHandle = False, confidence = 0,
      reasoning = ''Error occurred during evaluation'',
      suggestedActions = None,
      escalate = Some (case ag of CustomerSupport \<Rightarrow> True | _ \<Rightarrow> False)\<rparr>"

definition evaluate_outcome :: "agent \<Rightarrow> llm_outcome \<Rightarrow> AgentDecision" where
  "evaluate_outcome ag out =
     (case evaluate_try out of Inl err \<Rightarrow> errorDecision ag | Inr d \<Rightarrow> d)"

section \<open>The text-generation service\<close>

text \<open>
  A request carries what the prompt interpolates: the evaluator whose template it is and
  the email's \<open>from\<close>, \<open>subject\<close> and \<open>body\<close>; for the supervisor's conflict prompt, the
  same three fields and, per willing agent, its name, reasoning and confidence.
\<close>

datatype request =
  EvaluatePrompt agent string string string
| ConflictPrompt string string string "(string \<times> string \<times> int) list"

text \<open>
  The service is outside the program: it answers a request from a state of the world
  \<open>'w\<close> and leaves a new one. The program's side of it is the list of requests sent.
\<close>

type_synonym 'w service = "'w \<Rightarrow> request \<Rightarrow> llm_outcome \<times> 'w"

type_synonym 'w io = "'w \<times> request list"

definition invoke :: "'w service \<Rightarrow> request \<Rightarrow> 'w io \<Rightarrow> llm_outcome \<times> 'w io" where
  "invoke svc req io =
     (let (out, w') = svc (fst io) req in (out, (w', snd io @ [req])))"

text \<open>\<open>evaluate(email)\<close> of the evaluator \<open>ag\<close>: one call, then the \<open>try\<close>/\<open>catch\<close> above.\<close>

definition evaluate_prompt :: "agent \<Rightarrow> Email \<Rightarrow> request" where
  "evaluate_prompt ag e = EvaluatePrompt ag (email_from e) (subject e) (body e)"

definition evaluate :: "'w service \<Rightarrow> agent \<Rightarrow> Email \<Rightarrow> 'w io \<Rightarrow> AgentDecision \<times> 'w io" where
  "evaluate svc ag e io =
     (let (out, io') = invoke svc (evaluate_prompt ag e) io
      in (evaluate_outcome ag out, io'))"

section \<open>The supervisor (supervisorAgent.ts)\<close>

text \<open>\<open>obj[k] = v\<close> on an object with string keys: a present key keeps its place.\<close>

fun set_property :: "(string \<times> 'v) list \<Rightarrow> string \<Rightarrow> 'v \<Rightarrow> (string \<times> 'v) list" where
  "set_property [] k v = [(k, v)]"
| "set_property ((k', v') # kvs) k v =
     (if k' = k then (k, v) # kvs else (k', v') # set_property kvs k v)"

text \<open>
  \<open>createTriageResult\<close>. The last parameter defaults to \<open>false\<close> when the argument is
  \<open>undefined\<close>. \<open>||\<close> replaces an empty reasoning as well as a missing one; it keeps an
  empty list of actions. A lookup that finds nothing, or finds a property inherited from
  \<open>Object.prototype\<close>, has no \<open>reasoning\<close> and no \<open>suggestedActions\<close>: both are \<open>None\<close> here.
\<close>

definition createTriageResult ::
  "EmailTriageState \<Rightarrow> string \<Rightarrow> priority \<Rightarrow> string \<Rightarrow> bool option \<Rightarrow> TriageResult" where
  "createTriageResult st cat pri ag review =
     (let assignedDecision = map_of (agentDecisions st) ag
      in \<lparr>emailId = email_id (email st),
          category = cat,
          priority = pri,
          assignedAgent = ag,
          summary =
            (case assignedDecision of
               None \<Rightarrow> ''Email categorized as '' @ cat
             | Some d \<Rightarrow> if reasoning d = [] then ''Email categorized as '' @ cat else reasoning d),
          resultActions =
            (case assignedDecision of
               None \<Rightarrow> [''Route to '' @ ag @ '' team'']
             | Some d \<Rightarrow>
                 (case suggestedActions d of
                    None \<Rightarrow> [''Route to '' @ ag @ '' team'']
                  | Some acts \<Rightarrow> acts)),
          requiresHumanReview = (case review of None \<Rightarrow> False | Some b \<Rightarrow> b)\<rparr>)"

definition determinePriority :: "AgentDecision \<Rightarrow> priority" where
  "determinePriority decision =
     (if escalate decision = Some True then urgent
      else if confidence decision > 90 then high
      else if confidence decision > 70 then medium
      else low)"

text \<open>
  The local \<open>willingAgents\<close> of \<open>makeRoutingDecision\<close>: the entries that pass the filter,
  sorted by descending confidence. \<open>Array.prototype.sort\<close> is stable (ECMAScript 2019),
  as \<^const>\<open>sort_key\<close> is.
\<close>

definition willing :: "string \<times> AgentDecision \<Rightarrow> bool" where
  "willing entry = (shouldHandle (snd entry) \<and> confidence (snd entry) > 50)"

definition willingAgents :: "EmailTriageState \<Rightarrow> (string \<times> AgentDecision) list" where
  "willingAgents st =
     sort_key (\<lambda>entry. - confidence (snd entry)) (filter willing (agentDecisions st))"

text \<open>\<open>/ASSIGNED_AGENT: (\w+)/\<close> at one start position.\<close>

definition match_agent :: "string \<Rightarrow> string option" where
  "match_agent s =
     (case after_label ''ASSIGNED_AGENT: '' s of
        None \<Rightarrow> None
      | Some rest \<Rightarrow>
          (let w = takeWhile is_word rest in if w = [] then None else Some w))"

text \<open>\<open>/PRIORITY: (low|medium|high|urgent)/\<close> at one start position.\<close>

definition match_priority :: "string \<Rightarrow> priority option" where
  "match_priority s =
     (case after_label ''PRIORITY: '' s of
        None \<Rightarrow> None
      | Some rest \<Rightarrow>
          (if prefix ''low'' rest then Some low
           else if prefix ''medium'' rest then Some medium
           else if prefix ''high'' rest then Some high
           else if prefix ''urgent'' rest then Some urgent
           else None))"

text \<open>
  The \<open>try\<close> block of \<open>resolveConflict\<close> after the call. \<open>willingAgents[0][0]\<close> is read only
  when the reply names no agent, and raises when the list is empty. The reasoning of the
  reply goes to the console only. The parameter \<open>willingAgents\<close> is \<open>candidates\<close> here.
\<close>

definition resolve_try ::
  "EmailTriageState \<Rightarrow> (string \<times> AgentDecision) list \<Rightarrow> llm_outcome \<Rightarrow> js_error + TriageResult" where
  "resolve_try st candidates out =
     (case out of
        Rejected \<Rightarrow> Inl InvokeError
      | Resolved NonText \<Rightarrow> Inl TypeError
      | Resolved (Text content) \<Rightarrow>
          (let agentMatch = regex_search match_agent content;
               priorityMatch = regex_search match_priority content;
               pri = (case priorityMatch of Some p \<Rightarrow> p | None \<Rightarrow> medium)
           in case agentMatch of
                Some assigned \<Rightarrow> Inr (createTriageResult st assigned pri assigned (Some False))
              | None \<Rightarrow>
                  (case candidates of
                     [] \<Rightarrow> Inl TypeError
                   | first # _ \<Rightarrow>
                       Inr (createTriageResult st (fst first) pri (fst first) (Some False)))))"

text \<open>The \<open>catch\<close> block of \<open>resolveConflict\<close>: destructuring \<open>willingAgents[0]\<close> raises
  when the list is empty.\<close>

definition resolve_catch ::
  "EmailTriageState \<Rightarrow> (string \<times> AgentDecision) list \<Rightarrow> js_error + TriageResult" where
  "resolve_catch st candidates =
     (case candidates of
        [] \<Rightarrow> Inl TypeError
      | first # _ \<Rightarrow> Inr (createTriageResult st (fst first) medium (fst first) (Some False)))"

definition conflict_prompt :: "EmailTriageState \<Rightarrow> (string \<times> AgentDecision) list \<Rightarrow> request" where
  "conflict_prompt st candidates =
     (let e = email st;
          agentAnalysis = map (\<lambda>(name, d). (name, reasoning d, confidence d)) candidates
      in ConflictPrompt (email_from e) (subject e) (body e) agentAnalysis)"

definition resolveConflict ::
  "'w service \<Rightarrow> EmailTriageState \<Rightarrow> (string \<times> AgentDecision) list \<Rightarrow> 'w io
     \<Rightarrow> (js_error + TriageResult) \<times> 'w io" where
  "resolveConflict svc st candidates io =
     (let (out, io') = invoke svc (conflict_prompt st candidates) io
      in case resolve_try st candidates out of
           Inr r \<Rightarrow> (Inr r, io')
         | Inl err \<Rightarrow> (resolve_catch st candidates, io'))"

definition makeRoutingDecision ::
  "'w service \<Rightarrow> EmailTriageState \<Rightarrow> 'w io \<Rightarrow> (js_error + TriageResult) \<times> 'w io" where
  "makeRoutingDecision svc st io =
     (case willingAgents st of
        [] \<Rightarrow> (Inr (createTriageResult st ''General'' medium ''General'' (Some True)), io)
      | [(agentName, decision)] \<Rightarrow>
          (Inr (createTriageResult st agentName (determinePriority decision) agentName
                  (escalate decision)), io)
      | _ \<Rightarrow> resolveConflict svc st (willingAgents st) io)"

text \<open>
  \<open>triageEmail\<close>. \<open>Promise.all\<close> starts the three evaluators in the order
  CustomerSupport, Sales, HR and waits for all of them; none of them rejects.
\<close>

definition triageEmail ::
  "'w service \<Rightarrow> Email \<Rightarrow> 'w io \<Rightarrow> (js_error + TriageResult) \<times> 'w io" where
  "triageEmail svc e io =
     (let st0 = \<lparr>email = e, agentDecisions = [], requiresEscalation = False\<rparr>;
          (spamDecision, io1) = evaluate svc SpamFilter e io;
          st1 = st0\<lparr>agentDecisions := set_property (agentDecisions st0) ''SpamFilter'' spamDecision\<rparr>
      in if shouldHandle spamDecision \<and> confidence spamDecision > 70
         then (Inr (createTriageResult st1 ''Spam/Low-Priority'' low ''SpamFilter'' None), io1)
         else
           (let (customerSupportDecision, io2) = evaluate svc CustomerSupport e io1;
                (salesDecision, io3) = evaluate svc Sales e io2;
                (hrDecision, io4) = evaluate svc HR e io3;
                st2 = st1\<lparr>agentDecisions :=
                        set_property (agentDecisions st1) ''CustomerSupport'' customerSupportDecision\<rparr>;
                st3 = st2\<lparr>agentDecisions := set_property (agentDecisions st2) ''Sales'' salesDecision\<rparr>;
                st4 = st3\<lparr>agentDecisions := set_property (agentDecisions st3) ''HR'' hrDecision\<rparr>
            in makeRoutingDecision svc st4 io4))"

section \<open>The batch runner (index.ts)\<close>

text \<open>
  The \<open>for\<close> loop of \<open>main\<close> over the emails, for any supervisor \<open>triage\<close>: \<open>results\<close> is
  the array the loop pushes to, \<open>errors\<close> the lines \<open>console.error\<close> writes in the
  \<open>catch\<close> block (the email's id and the error).
\<close>

fun processEmails ::
  "(Email \<Rightarrow> 's \<Rightarrow> (js_error + TriageResult) \<times> 's) \<Rightarrow> Email list \<Rightarrow> TriageResult list
     \<Rightarrow> (string \<times> js_error) list \<Rightarrow> 's \<Rightarrow> (TriageResult list \<times> (string \<times> js_error) list) \<times> 's" where
  "processEmails triage [] results errors s = ((results, errors), s)"
| "processEmails triage (e # es) results errors s =
     (case triage e s of
        (Inr result, s') \<Rightarrow> processEmails triage es (results @ [result]) errors s'
      | (Inl err, s') \<Rightarrow> processEmails triage es results (errors @ [(email_id e, err)]) s')"

text \<open>
  \<open>main\<close>: without the API key the process exits with status 1 before any email is
  processed (\<open>None\<close>); otherwise the loop runs with a new \<open>SupervisorAgent\<close>.
\<close>

definition main ::
  "bool \<Rightarrow> 'w service \<Rightarrow> Email list \<Rightarrow> 'w io
     \<Rightarrow> (TriageResult list \<times> (string \<times> js_error) list) option \<times> 'w io" where
  "main has_api_key svc sampleEmails io =
     (if \<not> has_api_key then (None, io)
      else (let (out, io') = processEmails (triageEmail svc) sampleEmails [] [] io
            in (Some out, io')))"

section \<open>Notions used to state the properties\<close>

text \<open>
  A labelled field is present in a reply when its regular expression has a match
  somewhere: the label, then what the pattern asks for after it.
\<close>

definition confidence_present :: "string \<Rightarrow> bool" where
  "confidence_present content =
     (\<exists>pre d post. content = pre @ ''CONFIDENCE: '' @ d # post \<and> is_digit d)"

definition reasoning_present :: "string \<Rightarrow> bool" where
  "reasoning_present content =
     (\<exists>pre line post. content = pre @ ''REASONING: '' @ line @ post \<and> line \<noteq> [] \<and>
        list_all (\<lambda>c. \<not> is_line_terminator c) line \<and> (post = [] \<or> hd post = NL))"

definition escalate_present :: "string \<Rightarrow> bool" where
  "escalate_present content =
     (sublist ''ESCALATE: true'' content \<or> sublist ''ESCALATE: false'' content)"

definition actions_present :: "string \<Rightarrow> bool" where
  "actions_present content =
     (\<exists>pre c post. content = pre @ ''SUGGESTED_ACTIONS: '' @ c # post)"

definition agent_present :: "string \<Rightarrow> bool" where
  "agent_present content =
     (\<exists>pre c post. content = pre @ ''ASSIGNED_AGENT: '' @ c # post \<and> is_word c)"

definition priority_present :: "string \<Rightarrow> bool" where
  "priority_present content =
     (sublist ''PRIORITY: low'' content \<or> sublist ''PRIORITY: medium'' content \<or>
      sublist ''PRIORITY: high'' content \<or> sublist ''PRIORITY: urgent'' content)"

text \<open>
  The batch seen from outside: each email in turn is given to the supervisor in the
  state the previous one left, and has an outcome.
\<close>

fun run_each ::
  "(Email \<Rightarrow> 's \<Rightarrow> (js_error + TriageResult) \<times> 's) \<Rightarrow> Email list \<Rightarrow> 's
     \<Rightarrow> (Email \<times> (js_error + TriageResult)) list" where
  "run_each triage [] s = []"
| "run_each triage (e # es) s = (e, fst (triage e s)) # run_each triage es (snd (triage e s))"

fun successes :: "(Email \<times> (js_error + TriageResult)) list \<Rightarrow> TriageResult list" where
  "successes [] = []"
| "successes ((e, Inr r) # outs) = r # successes outs"
| "successes ((e, Inl err) # outs) = successes outs"

fun failures :: "(Email \<times> (js_error + TriageResult)) list \<Rightarrow> (string \<times> js_error) list" where
  "failures [] = []"
| "failures ((e, Inr r) # outs) = failures outs"
| "failures ((e, Inl err) # outs) = (email_id e, err) # failures outs"

text \<open>
  A service is deterministic on a class of requests when its answer to such a request
  is the same in every state of the world.
\<close>

definition deterministic_on :: "(request \<Rightarrow> bool) \<Rightarrow> 'w service \<Rightarrow> bool" where
  "deterministic_on P svc = (\<forall>w w' req. P req \<longrightarrow> fst (svc w req) = fst (svc w' req))"

fun is_evaluate :: "request \<Rightarrow> bool" where
  "is_evaluate (EvaluatePrompt ag f s b) = True"
| "is_evaluate (ConflictPrompt f s b a) = False"

definition any_request :: "request \<Rightarrow> bool" where
  "any_request req = True"

section \<open>Sample inputs\<close>

definition email1 :: Email where
  "email1 = \<lparr>email_id = ''email-001'', email_from = ''sarah.chen@techcorp.com'',
     email_to = ''support@company.com'', subject = ''Critical Payment Processing Issue - Urgent'',
     body = ''Hi, our payment gateway has been down for the past 2 hours.'', timestamp = 0\<rparr>"

definition email2 :: Email where
  "email2 = \<lparr>email_id = ''email-002'', email_from = ''john.smith@example.com'',
     email_to = ''sales@company.com'', subject = ''Inquiry about Enterprise Pricing'',
     body = ''Hello, I represent a Fortune 500 company.'', timestamp = 1\<rparr>"

text \<open>A reply in the format the prompts ask for.\<close>

definition reply :: "string \<Rightarrow> string \<Rightarrow> string \<Rightarrow> llm_outcome" where
  "reply sh conf esc =
     Resolved (Text (''SHOULD_HANDLE: '' @ sh @ [NL] @ ''CONFIDENCE: '' @ conf @ [NL] @
       ''REASONING: as requested'' @ [NL] @ ''SUGGESTED_ACTIONS: act'' @ [NL] @
       ''ESCALATE: '' @ esc))"

text \<open>
  A stub of the service whose world counts the calls: \<open>ev\<close> answers the evaluators,
  \<open>cf\<close> answers the conflict prompt from the number of calls so far.
\<close>

definition stub :: "(agent \<Rightarrow> llm_outcome) \<Rightarrow> (nat \<Rightarrow> llm_outcome) \<Rightarrow> nat service" where
  "stub ev cf w req =
     (case req of
        EvaluatePrompt ag f s b \<Rightarrow> (ev ag, Suc w)
      | ConflictPrompt f s b a \<Rightarrow> (cf w, Suc w))"

definition rejecting :: "nat \<Rightarrow> llm_outcome" where
  "rejecting n = Rejected"

text \<open>A text reply that holds none of the labelled fields.\<close>

definition unstructured :: "agent \<Rightarrow> llm_outcome" where
  "unstructured ag = Resolved (Text ''I cannot tell.'')"

definition decline :: llm_outcome where
  "decline = reply ''false'' ''20'' ''false''"

fun spam_only :: "string \<Rightarrow> agent \<Rightarrow> llm_outcome" where
  "spam_only conf SpamFilter = reply ''true'' conf ''false''"
| "spam_only conf ag = decline"

fun sales_escalates_at_10 :: "agent \<Rightarrow> llm_outcome" where
  "sales_escalates_at_10 Sales = reply ''true'' ''10'' ''true''"
| "sales_escalates_at_10 ag = decline"

fun support_and_sales :: "agent \<Rightarrow> llm_outcome" where
  "support_and_sales CustomerSupport = reply ''true'' ''80'' ''false''"
| "support_and_sales Sales = reply ''true'' ''85'' ''false''"
| "support_and_sales ag = decline"

text \<open>Conflict replies: one that names an agent the supervisor does not have, and one
  that changes with the number of calls made so far.\<close>

definition names_legal :: "nat \<Rightarrow> llm_outcome" where
  "names_legal n =
     Resolved (Text (''ASSIGNED_AGENT: Legal'' @ [NL] @ ''PRIORITY: high'' @ [NL] @
       ''REASONING: contract terms''))"

definition flip :: "nat \<Rightarrow> llm_outcome" where
  "flip n =
     (if even n then Resolved (Text ''ASSIGNED_AGENT: Sales'')
      else Resolved (Text ''ASSIGNED_AGENT: CustomerSupport''))"

definition decision :: "bool \<Rightarrow> int \<Rightarrow> bool \<Rightarrow> AgentDecision" where
  "decision sh conf esc =
     \<lparr>shouldHandle = sh, confidence = conf, reasoning = ''as requested'',
      suggestedActions = Some [''act''], escalate = Some esc\<rparr>"

definition state_of :: "(string \<times> AgentDecision) list \<Rightarrow> EmailTriageState" where
  "state_of ds = \<lparr>email = email1, agentDecisions = ds, requiresEscalation = False\<rparr>"

text \<open>A supervisor that raises on the email \<open>email-002\<close> and answers the others.\<close>

definition failing_triage :: "Email \<Rightarrow> nat \<Rightarrow> (js_error + TriageResult) \<times> nat" where
  "failing_triage e n =
     (if email_id e = ''email-002'' then (Inl TypeError, Suc n)
      else (Inr (createTriageResult ((state_of [])\<lparr>email := e\<rparr>) ''General'' medium ''General''
                  (Some True)), Suc n))"

section \<open>The evaluators: facts\<close>

lemma evaluate_calls:
  "evaluate svc ag e io = (d, io') \<Longrightarrow> snd io' = snd io @ [evaluate_prompt ag e]"
  by (auto simp: evaluate_def invoke_def split: prod.splits)

lemma evaluate_decision:
  "fst (evaluate svc ag e io) = evaluate_outcome ag (fst (svc (fst io) (evaluate_prompt ag e)))"
  by (simp add: evaluate_def invoke_def split: prod.splits)

lemma evaluate_try_Inl_iff:
  "(\<exists>err. evaluate_try out = Inl err) \<longleftrightarrow> out = Rejected \<or> out = Resolved NonText"
  by (auto simp: evaluate_try_def split: llm_outcome.splits content.splits)

section \<open>The supervisor: facts\<close>

text \<open>When the spam check does not end the triage, the four decisions are recorded in the
  order SpamFilter, CustomerSupport, Sales, HR and the routing decision is made on them.\<close>

lemma triageEmail_decide:
  assumes "evaluate svc SpamFilter e io = (d1, io1)"
    and "evaluate svc CustomerSupport e io1 = (d2, io2)"
    and "evaluate svc Sales e io2 = (d3, io3)"
    and "evaluate svc HR e io3 = (d4, io4)"
    and "\<not> (shouldHandle d1 \<and> confidence d1 > 70)"
  shows "triageEmail svc e io =
           makeRoutingDecision svc
             \<lparr>email = e,
              agentDecisions = [(''SpamFilter'', d1), (''CustomerSupport'', d2), (''Sales'', d3),
                                (''HR'', d4)],
              requiresEscalation = False\<rparr> io4"
  using assms by (auto simp: triageEmail_def Let_def)

text \<open>
  C1. When the SpamFilter evaluator returns a decision with \<open>shouldHandle\<close> true and a
  confidence above 70, \<open>triageEmail\<close> returns at once: the result has category
  \<open>Spam/Low-Priority\<close>, priority \<open>low\<close>, assigned agent \<open>SpamFilter\<close> and no human review,
  and the only request sent for the email is the SpamFilter one, so the CustomerSupport,
  Sales and HR evaluators are not invoked.
\<close>

theorem spam_short_circuit:
  assumes "evaluate svc SpamFilter e io = (d, io1)"
    and "shouldHandle d" and "confidence d > 70"
  shows "triageEmail svc e io =
           (Inr \<lparr>emailId = email_id e, category = ''Spam/Low-Priority'', priority = low,
                 assignedAgent = ''SpamFilter'',
                 summary = (if reasoning d = [] then ''Email categorized as Spam/Low-Priority''
                            else reasoning d),
                 resultActions = (case suggestedActions d of
                                    None \<Rightarrow> [''Route to SpamFilter team'']
                                  | Some acts \<Rightarrow> acts),
                 requiresHumanReview = False\<rparr>, io1)
         \<and> snd io1 = snd io @ [evaluate_prompt SpamFilter e]"
  using assms
  by (simp add: triageEmail_def createTriageResult_def evaluate_calls split: option.splits)

text \<open>The short-circuit on a SpamFilter reply with confidence 92.\<close>

theorem spam_short_circuit_witness:
  "shouldHandle (decision True 92 False) \<and> confidence (decision True 92 False) > 70 \<and>
   triageEmail (stub (spam_only ''92'') rejecting) email1 (0, []) =
     (Inr \<lparr>emailId = ''email-001'', category = ''Spam/Low-Priority'', priority = low,
           assignedAgent = ''SpamFilter'', summary = ''as requested'',
           resultActions = [''act''], requiresHumanReview = False\<rparr>,
      (1, [evaluate_prompt SpamFilter email1]))"
proof -
  have ev: "evaluate (stub (spam_only ''92'') rejecting) SpamFilter email1 (0, [])
              = (decision True 92 False, (1, [evaluate_prompt SpamFilter email1]))"
    by code_simp
  have sh: "shouldHandle (decision True 92 False)" and cf: "confidence (decision True 92 False) > 70"
    by (simp_all add: decision_def)
  show ?thesis
    using spam_short_circuit [OF ev sh cf] sh cf by (simp add: decision_def email1_def)
qed

text \<open>
  C3. When each of the four decisions has \<open>shouldHandle\<close> false or a confidence of at most
  50, the result is exactly category \<open>General\<close>, priority \<open>medium\<close>, assigned agent
  \<open>General\<close>, human review required.
\<close>

theorem no_willing_general:
  assumes "evaluate svc SpamFilter e io = (d1, io1)"
    and "evaluate svc CustomerSupport e io1 = (d2, io2)"
    and "evaluate svc Sales e io2 = (d3, io3)"
    and "evaluate svc HR e io3 = (d4, io4)"
    and "\<forall>d \<in> {d1, d2, d3, d4}. \<not> shouldHandle d \<or> confidence d \<le> 50"
  shows "triageEmail svc e io =
           (Inr \<lparr>emailId = email_id e, category = ''General'', priority = medium,
                 assignedAgent = ''General'', summary = ''Email categorized as General'',
                 resultActions = [''Route to General team''],
                 requiresHumanReview = True\<rparr>, io4)"
proof -
  have spam: "\<not> (shouldHandle d1 \<and> confidence d1 > 70)"
    using assms(5) by auto
  have none: "willingAgents \<lparr>email = e,
              agentDecisions = [(''SpamFilter'', d1), (''CustomerSupport'', d2), (''Sales'', d3),
                                (''HR'', d4)],
              requiresEscalation = False\<rparr> = []"
    using assms(5) by (auto simp: willingAgents_def willing_def)
  show ?thesis
    unfolding triageEmail_decide [OF assms(1-4) spam]
    by (simp add: makeRoutingDecision_def none createTriageResult_def)
qed

text \<open>Four evaluators that decline.\<close>

theorem no_willing_general_witness:
  "\<not> shouldHandle (decision False 20 False) \<and>
   triageEmail (stub (\<lambda>ag. decline) rejecting) email1 (0, []) =
     (Inr \<lparr>emailId = ''email-001'', category = ''General'', priority = medium,
           assignedAgent = ''General'', summary = ''Email categorized as General'',
           resultActions = [''Route to General team''], requiresHumanReview = True\<rparr>,
      (4, [evaluate_prompt SpamFilter email1, evaluate_prompt CustomerSupport email1,
           evaluate_prompt Sales email1, evaluate_prompt HR email1]))"
proof -
  let ?svc = "stub (\<lambda>ag. decline) rejecting"
  let ?d = "decision False 20 False"
  have e1: "evaluate ?svc SpamFilter email1 (0, []) = (?d, (1, [evaluate_prompt SpamFilter email1]))"
    by code_simp
  have e2: "evaluate ?svc CustomerSupport email1 (1, [evaluate_prompt SpamFilter email1])
              = (?d, (2, [evaluate_prompt SpamFilter email1, evaluate_prompt CustomerSupport email1]))"
    by code_simp
  have e3: "evaluate ?svc Sales email1
              (2, [evaluate_prompt SpamFilter email1, evaluate_prompt CustomerSupport email1])
              = (?d, (3, [evaluate_prompt SpamFilter email1, evaluate_prompt CustomerSupport email1,
                          evaluate_prompt Sales email1]))"
    by code_simp
  have e4: "evaluate ?svc HR email1
              (3, [evaluate_prompt SpamFilter email1, evaluate_prompt CustomerSupport email1,
                   evaluate_prompt Sales email1])
              = (?d, (4, [evaluate_prompt SpamFilter email1, evaluate_prompt CustomerSupport email1,
                          evaluate_prompt Sales email1, evaluate_prompt HR email1]))"
    by code_simp
  have h: "\<forall>d \<in> {?d, ?d, ?d, ?d}. \<not> shouldHandle d \<or> confidence d \<le> 50"
    by (simp add: decision_def)
  show ?thesis
    using no_willing_general [OF e1 e2 e3 e4 h] h by (simp add: email1_def decision_def)
qed

text \<open>The fields of a result that \<open>createTriageResult\<close> copies from its arguments.\<close>

lemma createTriageResult_fields:
  "emailId (createTriageResult st cat pri ag review) = email_id (email st)"
  "category (createTriageResult st cat pri ag review) = cat"
  "priority (createTriageResult st cat pri ag review) = pri"
  "assignedAgent (createTriageResult st cat pri ag review) = ag"
  "requiresHumanReview (createTriageResult st cat pri ag review) = (review = Some True)"
  by (cases review; simp add: createTriageResult_def Let_def)+

lemma willingAgents_single:
  "filter willing (agentDecisions st) = [entry] \<Longrightarrow> willingAgents st = [entry]"
  by (simp add: willingAgents_def)

lemma set_willingAgents:
  "set (willingAgents st) = {entry \<in> set (agentDecisions st). willing entry}"
  by (auto simp: willingAgents_def)

lemma length_willingAgents:
  "length (willingAgents st) = length (filter willing (agentDecisions st))"
  by (simp add: willingAgents_def)

text \<open>The first of the willing agents has the highest confidence among them.\<close>

lemma sort_key_hd_least:
  "sort_key f xs = y # ys \<Longrightarrow> x \<in> set xs \<Longrightarrow> f y \<le> f x"
proof -
  assume eq: "sort_key f xs = y # ys" and x: "x \<in> set xs"
  have "sorted (map f (sort_key f xs))" by (rule sorted_sort_key)
  then have "\<forall>z \<in> set ys. f y \<le> f z" by (simp add: eq)
  moreover have "x \<in> set (y # ys)" using x eq set_sort [of f xs] by simp
  ultimately show ?thesis by auto
qed

lemma willingAgents_hd_highest:
  assumes "willingAgents st = first # others" and "entry \<in> set (agentDecisions st)" and "willing entry"
  shows "confidence (snd entry) \<le> confidence (snd first)"
  using sort_key_hd_least [of "\<lambda>entry. - confidence (snd entry)" "filter willing (agentDecisions st)" first others entry]
    assms by (simp add: willingAgents_def)

text \<open>
  C2 (amended). In every state where exactly one recorded decision is willing
  (\<open>shouldHandle\<close> true and confidence above 50), the routing decision calls no service,
  assigns the email to that agent and takes the priority from the ladder: \<open>urgent\<close> when
  \<open>escalate\<close> is true, else \<open>high\<close> above 90, else \<open>medium\<close> above 70, else \<open>low\<close>; human
  review is required exactly when \<open>escalate\<close> is true. The confidence of that agent is
  above 50, so the case of a single willing agent with confidence 10 does not arise.
\<close>

theorem single_willing_ladder:
  assumes "filter willing (agentDecisions st) = [(name, d)]"
  shows "\<exists>r. makeRoutingDecision svc st io = (Inr r, io) \<and>
           assignedAgent r = name \<and> category r = name \<and>
           priority r = (if escalate d = Some True then urgent
                         else if confidence d > 90 then high
                         else if confidence d > 70 then medium
                         else low) \<and>
           requiresHumanReview r = (escalate d = Some True) \<and>
           shouldHandle d \<and> confidence d > 50"
proof -
  have "(name, d) \<in> set (filter willing (agentDecisions st))"
    using assms by simp
  then have w: "shouldHandle d \<and> confidence d > 50"
    by (simp add: willing_def)
  show ?thesis
    using w
    by (cases "escalate d")
       (auto simp: makeRoutingDecision_def willingAgents_single [OF assms]
          createTriageResult_fields determinePriority_def)
qed

text \<open>A single willing agent with confidence 95 and no escalation has priority \<open>high\<close>;
  one with confidence 51 that escalates has priority \<open>urgent\<close>.\<close>

theorem single_willing_ladder_witness:
  "(\<exists>r. makeRoutingDecision (stub (\<lambda>ag. decline) rejecting)
         (state_of [(''SpamFilter'', decision False 20 False),
                    (''CustomerSupport'', decision False 20 False),
                    (''Sales'', decision True 95 False),
                    (''HR'', decision False 20 False)]) (0, []) = (Inr r, (0, [])) \<and>
        assignedAgent r = ''Sales'' \<and> category r = ''Sales'' \<and> priority r = high \<and>
        requiresHumanReview r = False) \<and>
   (\<exists>r. makeRoutingDecision (stub (\<lambda>ag. decline) rejecting)
         (state_of [(''SpamFilter'', decision False 20 False),
                    (''CustomerSupport'', decision True 51 True),
                    (''Sales'', decision False 95 False),
                    (''HR'', decision False 20 False)]) (0, []) = (Inr r, (0, [])) \<and>
        assignedAgent r = ''CustomerSupport'' \<and> category r = ''CustomerSupport'' \<and>
        priority r = urgent \<and> requiresHumanReview r = True)"
proof -
  let ?st1 = "state_of [(''SpamFilter'', decision False 20 False),
                    (''CustomerSupport'', decision False 20 False),
                    (''Sales'', decision True 95 False),
                    (''HR'', decision False 20 False)]"
  let ?st2 = "state_of [(''SpamFilter'', decision False 20 False),
                    (''CustomerSupport'', decision True 51 True),
                    (''Sales'', decision False 95 False),
                    (''HR'', decision False 20 False)]"
  have f1: "filter willing (agentDecisions ?st1) = [(''Sales'', decision True 95 False)]"
    by (simp add: state_of_def willing_def decision_def)
  have f2: "filter willing (agentDecisions ?st2) = [(''CustomerSupport'', decision True 51 True)]"
    by (simp add: state_of_def willing_def decision_def)
  have c1: "escalate (decision True 95 False) = Some False" "confidence (decision True 95 False) = 95"
    and c2: "escalate (decision True 51 True) = Some True"
    by (simp_all add: decision_def)
  show ?thesis
    using single_willing_ladder [OF f1, of "stub (\<lambda>ag. decline) rejecting" "(0, [])"]
      single_willing_ladder [OF f2, of "stub (\<lambda>ag. decline) rejecting" "(0, [])"]
    unfolding c1 c2 by auto
qed

text \<open>
  C2 as stated fails on its second instance. The Sales evaluator alone answers
  \<open>SHOULD_HANDLE: true\<close>, with \<open>CONFIDENCE: 10\<close> and \<open>ESCALATE: true\<close>. The ladder alone would
  give \<open>urgent\<close>, but the decision is not willing: the email goes to \<open>General\<close> at priority
  \<open>medium\<close>.
\<close>

theorem escalate_at_10_counterexample:
  "evaluate_outcome Sales (sales_escalates_at_10 Sales) = decision True 10 True \<and>
   evaluate_outcome SpamFilter (sales_escalates_at_10 SpamFilter) = decision False 20 False \<and>
   evaluate_outcome CustomerSupport (sales_escalates_at_10 CustomerSupport) = decision False 20 False \<and>
   evaluate_outcome HR (sales_escalates_at_10 HR) = decision False 20 False \<and>
   determinePriority (decision True 10 True) = urgent \<and>
   fst (triageEmail (stub sales_escalates_at_10 rejecting) email1 (0, [])) =
     Inr \<lparr>emailId = ''email-001'', category = ''General'', priority = medium,
           assignedAgent = ''General'', summary = ''Email categorized as General'',
           resultActions = [''Route to General team''], requiresHumanReview = True\<rparr>"
  by code_simp

text \<open>
  C8. When the SpamFilter decision has \<open>shouldHandle\<close> true and a confidence in 51..70, the
  spam check does not end the triage, the routing decision is made on all four recorded
  decisions, and SpamFilter's is among the willing ones. When no other decision is
  willing, SpamFilter is the assigned agent, with category \<open>SpamFilter\<close>.
\<close>

theorem spam_filter_willing:
  assumes "evaluate svc SpamFilter e io = (d1, io1)"
    and "shouldHandle d1" and "50 < confidence d1" and "confidence d1 \<le> 70"
    and "evaluate svc CustomerSupport e io1 = (d2, io2)"
    and "evaluate svc Sales e io2 = (d3, io3)"
    and "evaluate svc HR e io3 = (d4, io4)"
    and "st = \<lparr>email = e,
               agentDecisions = [(''SpamFilter'', d1), (''CustomerSupport'', d2), (''Sales'', d3),
                                 (''HR'', d4)],
               requiresEscalation = False\<rparr>"
  shows "triageEmail svc e io = makeRoutingDecision svc st io4 \<and>
         (''SpamFilter'', d1) \<in> set (willingAgents st) \<and>
         (\<not> willing (''CustomerSupport'', d2) \<and> \<not> willing (''Sales'', d3) \<and>
          \<not> willing (''HR'', d4) \<longrightarrow>
            (\<exists>r. triageEmail svc e io = (Inr r, io4) \<and> assignedAgent r = ''SpamFilter'' \<and>
                 category r = ''SpamFilter'' \<and> priority r = determinePriority d1))"
proof -
  have nospam: "\<not> (shouldHandle d1 \<and> confidence d1 > 70)"
    using assms(4) by simp
  have t: "triageEmail svc e io = makeRoutingDecision svc st io4"
    unfolding assms(8) by (rule triageEmail_decide [OF assms(1) assms(5-7) nospam])
  have w: "willing (''SpamFilter'', d1)"
    using assms(2,3) by (simp add: willing_def)
  have m: "(''SpamFilter'', d1) \<in> set (willingAgents st)"
    using w by (simp add: set_willingAgents assms(8))
  have only: "\<exists>r. triageEmail svc e io = (Inr r, io4) \<and> assignedAgent r = ''SpamFilter'' \<and>
                 category r = ''SpamFilter'' \<and> priority r = determinePriority d1"
    if "\<not> willing (''CustomerSupport'', d2)" "\<not> willing (''Sales'', d3)" "\<not> willing (''HR'', d4)"
  proof -
    have f: "filter willing (agentDecisions st) = [(''SpamFilter'', d1)]"
      using that w by (simp add: assms(8))
    show ?thesis
      unfolding t
      by (simp add: makeRoutingDecision_def willingAgents_single [OF f] createTriageResult_fields)
  qed
  show ?thesis using t m only by blast
qed

text \<open>A SpamFilter reply with confidence 60 and three evaluators that decline.\<close>

theorem spam_filter_willing_witness:
  "shouldHandle (decision True 60 False) \<and> 50 < confidence (decision True 60 False) \<and>
   confidence (decision True 60 False) \<le> 70 \<and>
   (''SpamFilter'', decision True 60 False) \<in> set (willingAgents
      \<lparr>email = email1,
       agentDecisions = [(''SpamFilter'', decision True 60 False),
                         (''CustomerSupport'', decision False 20 False),
                         (''Sales'', decision False 20 False),
                         (''HR'', decision False 20 False)],
       requiresEscalation = False\<rparr>) \<and>
   (\<exists>r. triageEmail (stub (spam_only ''60'') rejecting) email1 (0, []) =
          (Inr r, (4, [evaluate_prompt SpamFilter email1, evaluate_prompt CustomerSupport email1,
                       evaluate_prompt Sales email1, evaluate_prompt HR email1])) \<and>
        assignedAgent r = ''SpamFilter'' \<and> category r = ''SpamFilter'' \<and> priority r = low)"
proof -
  let ?svc = "stub (spam_only ''60'') rejecting"
  let ?d = "decision False 20 False"
  let ?p1 = "evaluate_prompt SpamFilter email1"
  let ?p2 = "evaluate_prompt CustomerSupport email1"
  let ?p3 = "evaluate_prompt Sales email1"
  let ?p4 = "evaluate_prompt HR email1"
  have e1: "evaluate ?svc SpamFilter email1 (0, []) = (decision True 60 False, (1, [?p1]))"
    by code_simp
  have e2: "evaluate ?svc CustomerSupport email1 (1, [?p1]) = (?d, (2, [?p1, ?p2]))"
    by code_simp
  have e3: "evaluate ?svc Sales email1 (2, [?p1, ?p2]) = (?d, (3, [?p1, ?p2, ?p3]))"
    by code_simp
  have e4: "evaluate ?svc HR email1 (3, [?p1, ?p2, ?p3]) = (?d, (4, [?p1, ?p2, ?p3, ?p4]))"
    by code_simp
  have h: "shouldHandle (decision True 60 False)" "50 < confidence (decision True 60 False)"
    "confidence (decision True 60 False) \<le> 70"
    by (simp_all add: decision_def)
  have nw: "\<not> willing (''CustomerSupport'', ?d)" "\<not> willing (''Sales'', ?d)" "\<not> willing (''HR'', ?d)"
    by (simp_all add: willing_def decision_def)
  note th = spam_filter_willing [OF e1 h e2 e3 e4 refl]
  have m: "(''SpamFilter'', decision True 60 False) \<in> set (willingAgents
      \<lparr>email = email1,
       agentDecisions = [(''SpamFilter'', decision True 60 False),
                         (''CustomerSupport'', ?d), (''Sales'', ?d), (''HR'', ?d)],
       requiresEscalation = False\<rparr>)"
    using th by blast
  have p: "determinePriority (decision True 60 False) = low"
    by (simp add: determinePriority_def decision_def)
  have ex: "\<exists>r. triageEmail ?svc email1 (0, []) = (Inr r, (4, [?p1, ?p2, ?p3, ?p4])) \<and>
        assignedAgent r = ''SpamFilter'' \<and> category r = ''SpamFilter'' \<and> priority r = low"
    using th nw unfolding p by blast
  show ?thesis
    using h m ex by blast
qed

section \<open>The regular expressions: what a match is\<close>

lemma str_includes_iff: "str_includes s pat \<longleftrightarrow> sublist pat s"
  by (induction s) (simp_all add: sublist_Cons_right)

text \<open>A search finds nothing exactly when the matcher fails at every start position.\<close>

lemma regex_search_None_iff:
  "regex_search m s = None \<longleftrightarrow> (\<forall>suf. suffix suf s \<longrightarrow> m suf = None)"
  by (induction s) (auto simp: suffix_Cons split: option.splits)

lemma after_label_Some_iff: "after_label lbl s = Some rest \<longleftrightarrow> s = lbl @ rest"
  by (auto simp: after_label_def prefix_def)

text \<open>Each pattern has a match somewhere exactly when its field is present.\<close>

lemma match_confidence_iff:
  "match_confidence suf \<noteq> None \<longleftrightarrow> (\<exists>d post. suf = ''CONFIDENCE: '' @ d # post \<and> is_digit d)"
proof
  assume "match_confidence suf \<noteq> None"
  then obtain rest where r: "suf = ''CONFIDENCE: '' @ rest" and t: "takeWhile is_digit rest \<noteq> []"
    by (auto simp: match_confidence_def Let_def after_label_Some_iff
          split: option.splits if_splits)
  from t obtain d post where "rest = d # post" "is_digit d"
    by (cases rest) (auto split: if_splits)
  with r show "\<exists>d post. suf = ''CONFIDENCE: '' @ d # post \<and> is_digit d" by blast
next
  assume "\<exists>d post. suf = ''CONFIDENCE: '' @ d # post \<and> is_digit d"
  then obtain d post where s: "suf = ''CONFIDENCE: '' @ (d # post)" and d: "is_digit d" by auto
  have "after_label ''CONFIDENCE: '' suf = Some (d # post)"
    unfolding after_label_Some_iff by (rule s)
  then show "match_confidence suf \<noteq> None"
    using d by (simp add: match_confidence_def)
qed

lemma confidence_present_iff:
  "confidence_present content \<longleftrightarrow> regex_search match_confidence content \<noteq> None"
proof -
  have "regex_search match_confidence content \<noteq> None
          \<longleftrightarrow> (\<exists>suf. suffix suf content \<and> match_confidence suf \<noteq> None)"
    by (simp add: regex_search_None_iff)
  also have "\<dots> \<longleftrightarrow> confidence_present content"
    unfolding match_confidence_iff confidence_present_def suffix_def by blast
  finally show ?thesis by simp
qed

lemma match_agent_iff:
  "match_agent suf \<noteq> None \<longleftrightarrow> (\<exists>c post. suf = ''ASSIGNED_AGENT: '' @ c # post \<and> is_word c)"
proof
  assume "match_agent suf \<noteq> None"
  then obtain rest where r: "suf = ''ASSIGNED_AGENT: '' @ rest" and t: "takeWhile is_word rest \<noteq> []"
    by (auto simp: match_agent_def Let_def after_label_Some_iff
          split: option.splits if_splits)
  from t obtain c post where "rest = c # post" "is_word c"
    by (cases rest) (auto split: if_splits)
  with r show "\<exists>c post. suf = ''ASSIGNED_AGENT: '' @ c # post \<and> is_word c" by blast
next
  assume "\<exists>c post. suf = ''ASSIGNED_AGENT: '' @ c # post \<and> is_word c"
  then obtain c post where s: "suf = ''ASSIGNED_AGENT: '' @ (c # post)" and c: "is_word c" by auto
  have "after_label ''ASSIGNED_AGENT: '' suf = Some (c # post)"
    unfolding after_label_Some_iff by (rule s)
  then show "match_agent suf \<noteq> None"
    using c by (simp add: match_agent_def)
qed

lemma agent_present_iff:
  "agent_present content \<longleftrightarrow> regex_search match_agent content \<noteq> None"
proof -
  have "regex_search match_agent content \<noteq> None
          \<longleftrightarrow> (\<exists>suf. suffix suf content \<and> match_agent suf \<noteq> None)"
    by (simp add: regex_search_None_iff)
  also have "\<dots> \<longleftrightarrow> agent_present content"
    unfolding match_agent_iff agent_present_def suffix_def by blast
  finally show ?thesis by simp
qed

lemma match_actions_iff:
  "match_actions suf \<noteq> None \<longleftrightarrow> (\<exists>c post. suf = ''SUGGESTED_ACTIONS: '' @ c # post)"
proof
  assume "match_actions suf \<noteq> None"
  then show "\<exists>c post. suf = ''SUGGESTED_ACTIONS: '' @ c # post"
    by (auto simp: match_actions_def after_label_Some_iff split: option.splits list.splits)
next
  assume "\<exists>c post. suf = ''SUGGESTED_ACTIONS: '' @ c # post"
  then obtain c post where s: "suf = ''SUGGESTED_ACTIONS: '' @ (c # post)" by auto
  have "after_label ''SUGGESTED_ACTIONS: '' suf = Some (c # post)"
    unfolding after_label_Some_iff by (rule s)
  then show "match_actions suf \<noteq> None"
    by (simp add: match_actions_def)
qed

lemma actions_present_iff:
  "actions_present content \<longleftrightarrow> regex_search match_actions content \<noteq> None"
proof -
  have "regex_search match_actions content \<noteq> None
          \<longleftrightarrow> (\<exists>suf. suffix suf content \<and> match_actions suf \<noteq> None)"
    by (simp add: regex_search_None_iff)
  also have "\<dots> \<longleftrightarrow> actions_present content"
    unfolding match_actions_iff actions_present_def suffix_def by blast
  finally show ?thesis by simp
qed

lemma prefix_label_append:
  "prefix (lbl @ w) s \<longleftrightarrow> (\<exists>rest. after_label lbl s = Some rest \<and> prefix w rest)"
  by (auto simp: after_label_def prefix_def)

lemma match_escalate_iff:
  "match_escalate suf \<noteq> None \<longleftrightarrow> prefix ''ESCALATE: true'' suf \<or> prefix ''ESCALATE: false'' suf"
proof -
  have t: "prefix ''ESCALATE: true'' suf
             \<longleftrightarrow> (\<exists>rest. after_label ''ESCALATE: '' suf = Some rest \<and> prefix ''true'' rest)"
    using prefix_label_append [of "''ESCALATE: ''" "''true''" suf] by simp
  have f: "prefix ''ESCALATE: false'' suf
             \<longleftrightarrow> (\<exists>rest. after_label ''ESCALATE: '' suf = Some rest \<and> prefix ''false'' rest)"
    using prefix_label_append [of "''ESCALATE: ''" "''false''" suf] by simp
  show ?thesis
    unfolding t f by (auto simp: match_escalate_def split: option.splits)
qed

lemma escalate_present_iff:
  "escalate_present content \<longleftrightarrow> regex_search match_escalate content \<noteq> None"
proof -
  have "regex_search match_escalate content \<noteq> None
          \<longleftrightarrow> (\<exists>suf. suffix suf content \<and> match_escalate suf \<noteq> None)"
    by (simp add: regex_search_None_iff)
  also have "\<dots> \<longleftrightarrow> escalate_present content"
    unfolding match_escalate_iff escalate_present_def sublist_altdef' by blast
  finally show ?thesis by simp
qed

lemma match_priority_iff:
  "match_priority suf \<noteq> None \<longleftrightarrow>
     prefix ''PRIORITY: low'' suf \<or> prefix ''PRIORITY: medium'' suf \<or>
     prefix ''PRIORITY: high'' suf \<or> prefix ''PRIORITY: urgent'' suf"
proof -
  have l: "prefix ''PRIORITY: low'' suf
             \<longleftrightarrow> (\<exists>rest. after_label ''PRIORITY: '' suf = Some rest \<and> prefix ''low'' rest)"
    using prefix_label_append [of "''PRIORITY: ''" "''low''" suf] by simp
  have m: "prefix ''PRIORITY: medium'' suf
             \<longleftrightarrow> (\<exists>rest. after_label ''PRIORITY: '' suf = Some rest \<and> prefix ''medium'' rest)"
    using prefix_label_append [of "''PRIORITY: ''" "''medium''" suf] by simp
  have h: "prefix ''PRIORITY: high'' suf
             \<longleftrightarrow> (\<exists>rest. after_label ''PRIORITY: '' suf = Some rest \<and> prefix ''high'' rest)"
    using prefix_label_append [of "''PRIORITY: ''" "''high''" suf] by simp
  have u: "prefix ''PRIORITY: urgent'' suf
             \<longleftrightarrow> (\<exists>rest. after_label ''PRIORITY: '' suf = Some rest \<and> prefix ''urgent'' rest)"
    using prefix_label_append [of "''PRIORITY: ''" "''urgent''" suf] by simp
  show ?thesis
    unfolding l m h u by (auto simp: match_priority_def split: option.splits)
qed

lemma priority_present_iff:
  "priority_present content \<longleftrightarrow> regex_search match_priority content \<noteq> None"
proof -
  have "regex_search match_priority content \<noteq> None
          \<longleftrightarrow> (\<exists>suf. suffix suf content \<and> match_priority suf \<noteq> None)"
    by (simp add: regex_search_None_iff)
  also have "\<dots> \<longleftrightarrow> priority_present content"
    unfolding match_priority_iff priority_present_def sublist_altdef' by blast
  finally show ?thesis by simp
qed

lemma takeWhile_line:
  assumes "list_all P line" and "post = [] \<or> \<not> P (hd post)"
  shows "takeWhile P (line @ post) = line" and "dropWhile P (line @ post) = post"
  using assms by (cases post; simp add: list_all_iff takeWhile_append2 dropWhile_append2)+

lemma match_reasoning_iff:
  "match_reasoning suf \<noteq> None \<longleftrightarrow>
     (\<exists>line post. suf = ''REASONING: '' @ line @ post \<and> line \<noteq> [] \<and>
        list_all (\<lambda>c. \<not> is_line_terminator c) line \<and> (post = [] \<or> hd post = NL))"
  (is "?L \<longleftrightarrow> ?R")
proof
  assume ?L
  then obtain rest where r: "suf = ''REASONING: '' @ rest"
    and t: "takeWhile (\<lambda>c. \<not> is_line_terminator c) rest \<noteq> []"
    and a: "dropWhile (\<lambda>c. \<not> is_line_terminator c) rest = [] \<or>
            hd (dropWhile (\<lambda>c. \<not> is_line_terminator c) rest) = NL"
    by (auto simp: match_reasoning_def Let_def after_label_Some_iff
          split: option.splits if_splits)
  let ?line = "takeWhile (\<lambda>c. \<not> is_line_terminator c) rest"
  let ?post = "dropWhile (\<lambda>c. \<not> is_line_terminator c) rest"
  have "suf = ''REASONING: '' @ ?line @ ?post" using r by simp
  moreover have "list_all (\<lambda>c. \<not> is_line_terminator c) ?line"
    by (auto simp: list_all_iff dest: set_takeWhileD)
  ultimately show ?R using t a by blast
next
  assume ?R
  then obtain line post where s: "suf = ''REASONING: '' @ (line @ post)" and n: "line \<noteq> []"
    and l: "list_all (\<lambda>c. \<not> is_line_terminator c) line" and p: "post = [] \<or> hd post = NL"
    by auto
  have p': "post = [] \<or> \<not> \<not> is_line_terminator (hd post)"
    using p by (auto simp: is_line_terminator_def)
  have al: "after_label ''REASONING: '' suf = Some (line @ post)"
    unfolding after_label_Some_iff by (rule s)
  show ?L
    using n p by (simp add: match_reasoning_def al takeWhile_line [OF l p'])
qed

lemma reasoning_present_iff:
  "reasoning_present content \<longleftrightarrow> regex_search match_reasoning content \<noteq> None"
proof -
  have "regex_search match_reasoning content \<noteq> None
          \<longleftrightarrow> (\<exists>suf. suffix suf content \<and> match_reasoning suf \<noteq> None)"
    by (simp add: regex_search_None_iff)
  also have "\<dots> \<longleftrightarrow> reasoning_present content"
    unfolding match_reasoning_iff reasoning_present_def suffix_def by blast
  finally show ?thesis by simp
qed

text \<open>
  C7. For each of the four evaluators and every reply text, the parsed decision has
  \<open>shouldHandle\<close> true exactly when the reply contains \<open>SHOULD_HANDLE: true\<close>, and a field
  that is missing or malformed (its label is not followed by what the pattern asks for)
  takes its default: confidence 50, reasoning \<open>Analysis completed\<close>, \<open>escalate\<close> false, no
  suggested actions.
\<close>

theorem parse_reply_defaults:
  "(shouldHandle (evaluate_outcome ag (Resolved (Text content)))
      \<longleftrightarrow> sublist ''SHOULD_HANDLE: true'' content) \<and>
   (\<not> confidence_present content \<longrightarrow>
      confidence (evaluate_outcome ag (Resolved (Text content))) = 50) \<and>
   (\<not> reasoning_present content \<longrightarrow>
      reasoning (evaluate_outcome ag (Resolved (Text content))) = ''Analysis completed'') \<and>
   (\<not> escalate_present content \<longrightarrow>
      escalate (evaluate_outcome ag (Resolved (Text content))) = Some False) \<and>
   (\<not> actions_present content \<longrightarrow>
      suggestedActions (evaluate_outcome ag (Resolved (Text content))) = Some [])"
  by (simp add: evaluate_outcome_def evaluate_try_def parseDecision_def str_includes_iff
        confidence_present_iff reasoning_present_iff escalate_present_iff actions_present_iff)

text \<open>A reply that holds \<open>SHOULD_HANDLE: true\<close> and nothing else.\<close>

theorem parse_reply_defaults_witness:
  "sublist ''SHOULD_HANDLE: true'' ''SHOULD_HANDLE: true'' \<and>
   \<not> confidence_present ''SHOULD_HANDLE: true'' \<and>
   \<not> reasoning_present ''SHOULD_HANDLE: true'' \<and>
   \<not> escalate_present ''SHOULD_HANDLE: true'' \<and>
   \<not> actions_present ''SHOULD_HANDLE: true'' \<and>
   shouldHandle (evaluate_outcome Sales (Resolved (Text ''SHOULD_HANDLE: true''))) \<and>
   confidence (evaluate_outcome Sales (Resolved (Text ''SHOULD_HANDLE: true''))) = 50 \<and>
   reasoning (evaluate_outcome Sales (Resolved (Text ''SHOULD_HANDLE: true'')))
     = ''Analysis completed'' \<and>
   escalate (evaluate_outcome Sales (Resolved (Text ''SHOULD_HANDLE: true''))) = Some False \<and>
   suggestedActions (evaluate_outcome Sales (Resolved (Text ''SHOULD_HANDLE: true''))) = Some []"
proof -
  have s: "sublist ''SHOULD_HANDLE: true'' ''SHOULD_HANDLE: true''"
    by simp
  have c: "\<not> confidence_present ''SHOULD_HANDLE: true''"
    unfolding confidence_present_iff by code_simp
  have r: "\<not> reasoning_present ''SHOULD_HANDLE: true''"
    unfolding reasoning_present_iff by code_simp
  have e: "\<not> escalate_present ''SHOULD_HANDLE: true''"
    unfolding escalate_present_iff by code_simp
  have a: "\<not> actions_present ''SHOULD_HANDLE: true''"
    unfolding actions_present_iff by code_simp
  show ?thesis
    using parse_reply_defaults [of Sales "''SHOULD_HANDLE: true''"] s c r e a by blast
qed

section \<open>The evaluators: failure and defaults\<close>

text \<open>A text with none of the fields parses to the defaults.\<close>

lemma parseDecision_no_fields:
  assumes "\<not> sublist ''SHOULD_HANDLE: true'' c" and "\<not> confidence_present c"
    and "\<not> reasoning_present c" and "\<not> escalate_present c" and "\<not> actions_present c"
  shows "parseDecision c =
           \<lparr>shouldHandle = False, confidence = 50, reasoning = ''Analysis completed'',
            suggestedActions = Some [], escalate = Some False\<rparr>"
  using assms
  by (simp add: parseDecision_def str_includes_iff confidence_present_iff
        reasoning_present_iff escalate_present_iff actions_present_iff)

lemma no_fields_unstructured:
  "\<not> sublist ''SHOULD_HANDLE: true'' ''I cannot tell.''"
  "\<not> confidence_present ''I cannot tell.''"
  "\<not> reasoning_present ''I cannot tell.''"
  "\<not> escalate_present ''I cannot tell.''"
  "\<not> actions_present ''I cannot tell.''"
  unfolding str_includes_iff [symmetric] confidence_present_iff reasoning_present_iff
    escalate_present_iff actions_present_iff
  by code_simp+

text \<open>
  C5 (amended). For each of the four evaluators and every email, \<open>evaluate\<close> raises
  nothing. When the call to the service is rejected, or the content of the reply is not
  a string (so that the parsing raises), it returns the degraded decision: \<open>shouldHandle\<close>
  false, confidence 0, a reasoning that reports the error, and \<open>escalate\<close> true for
  CustomerSupport and false for the others. Every text reply is parsed and never
  reaches the \<open>catch\<close> block; a text that holds none of the expected fields gives the
  defaults of the parser, for CustomerSupport as for the others: \<open>shouldHandle\<close> false,
  confidence 50, reasoning \<open>Analysis completed\<close>, no suggested actions, \<open>escalate\<close> false.
  By \<open>evaluate_try_Inl_iff\<close> the rejected call and the content that is not a string are
  the only two ways the \<open>try\<close> block raises.
\<close>

theorem evaluate_failure_degraded:
  "(fst (svc (fst io) (evaluate_prompt ag e)) \<in> {Rejected, Resolved NonText} \<longrightarrow>
      fst (evaluate svc ag e io) =
        \<lparr>shouldHandle = False, confidence = 0,
         reasoning = ''Error occurred during evaluation'',
         suggestedActions = None, escalate = Some (ag = CustomerSupport)\<rparr>) \<and>
   (fst (svc (fst io) (evaluate_prompt ag e)) = Resolved (Text c) \<longrightarrow>
      fst (evaluate svc ag e io) = parseDecision c) \<and>
   (fst (svc (fst io) (evaluate_prompt ag e)) = Resolved (Text c) \<and>
    \<not> sublist ''SHOULD_HANDLE: true'' c \<and> \<not> confidence_present c \<and>
    \<not> reasoning_present c \<and> \<not> escalate_present c \<and> \<not> actions_present c \<longrightarrow>
      fst (evaluate svc ag e io) =
        \<lparr>shouldHandle = False, confidence = 50, reasoning = ''Analysis completed'',
         suggestedActions = Some [], escalate = Some False\<rparr>)"
proof (intro conjI impI)
  assume "fst (svc (fst io) (evaluate_prompt ag e)) \<in> {Rejected, Resolved NonText}"
  then show "fst (evaluate svc ag e io) =
        \<lparr>shouldHandle = False, confidence = 0,
         reasoning = ''Error occurred during evaluation'',
         suggestedActions = None, escalate = Some (ag = CustomerSupport)\<rparr>"
    by (cases ag)
       (auto simp: evaluate_decision evaluate_outcome_def evaluate_try_def errorDecision_def)
next
  assume "fst (svc (fst io) (evaluate_prompt ag e)) = Resolved (Text c)"
  then show "fst (evaluate svc ag e io) = parseDecision c"
    by (simp add: evaluate_decision evaluate_outcome_def evaluate_try_def)
next
  assume a: "fst (svc (fst io) (evaluate_prompt ag e)) = Resolved (Text c) \<and>
    \<not> sublist ''SHOULD_HANDLE: true'' c \<and> \<not> confidence_present c \<and>
    \<not> reasoning_present c \<and> \<not> escalate_present c \<and> \<not> actions_present c"
  then have "fst (evaluate svc ag e io) = parseDecision c"
    by (simp add: evaluate_decision evaluate_outcome_def evaluate_try_def)
  then show "fst (evaluate svc ag e io) =
        \<lparr>shouldHandle = False, confidence = 50, reasoning = ''Analysis completed'',
         suggestedActions = Some [], escalate = Some False\<rparr>"
    using a parseDecision_no_fields [of c] by simp
qed

text \<open>A rejected call for CustomerSupport, a content that is not a string for HR, and a
  text without fields for Sales.\<close>

theorem evaluate_failure_degraded_witness:
  "fst (evaluate (stub (\<lambda>ag. Rejected) rejecting) CustomerSupport email1 (0, [])) =
     \<lparr>shouldHandle = False, confidence = 0, reasoning = ''Error occurred during evaluation'',
      suggestedActions = None, escalate = Some True\<rparr> \<and>
   fst (evaluate (stub (\<lambda>ag. Resolved NonText) rejecting) HR email1 (0, [])) =
     \<lparr>shouldHandle = False, confidence = 0, reasoning = ''Error occurred during evaluation'',
      suggestedActions = None, escalate = Some False\<rparr> \<and>
   \<not> sublist ''SHOULD_HANDLE: true'' ''I cannot tell.'' \<and>
   \<not> confidence_present ''I cannot tell.'' \<and> \<not> reasoning_present ''I cannot tell.'' \<and>
   \<not> escalate_present ''I cannot tell.'' \<and> \<not> actions_present ''I cannot tell.'' \<and>
   fst (evaluate (stub unstructured rejecting) Sales email1 (0, [])) =
     \<lparr>shouldHandle = False, confidence = 50, reasoning = ''Analysis completed'',
      suggestedActions = Some [], escalate = Some False\<rparr>"
proof -
  have a: "fst (stub (\<lambda>ag. Rejected) rejecting (fst (0, [])) (evaluate_prompt CustomerSupport email1))
     \<in> {Rejected, Resolved NonText}"
    by (simp add: stub_def evaluate_prompt_def)
  have b: "fst (stub (\<lambda>ag. Resolved NonText) rejecting (fst (0, [])) (evaluate_prompt HR email1))
     \<in> {Rejected, Resolved NonText}"
    by (simp add: stub_def evaluate_prompt_def)
  have c: "fst (stub unstructured rejecting (fst (0, [])) (evaluate_prompt Sales email1))
     = Resolved (Text ''I cannot tell.'')"
    by (simp add: stub_def evaluate_prompt_def unstructured_def)
  have c': "fst (stub unstructured rejecting (fst (0, [])) (evaluate_prompt Sales email1))
              = Resolved (Text ''I cannot tell.'') \<and>
            \<not> sublist ''SHOULD_HANDLE: true'' ''I cannot tell.'' \<and>
            \<not> confidence_present ''I cannot tell.'' \<and> \<not> reasoning_present ''I cannot tell.'' \<and>
            \<not> escalate_present ''I cannot tell.'' \<and> \<not> actions_present ''I cannot tell.''"
    using c no_fields_unstructured by blast
  have r1: "fst (evaluate (stub (\<lambda>ag. Rejected) rejecting) CustomerSupport email1 (0, [])) =
     \<lparr>shouldHandle = False, confidence = 0, reasoning = ''Error occurred during evaluation'',
      suggestedActions = None, escalate = Some True\<rparr>"
    using evaluate_failure_degraded
            [where svc = "stub (\<lambda>ag. Rejected) rejecting" and io = "(0, [])"
               and ag = CustomerSupport and e = email1, THEN conjunct1, THEN mp, OF a]
    by simp
  have r2: "fst (evaluate (stub (\<lambda>ag. Resolved NonText) rejecting) HR email1 (0, [])) =
     \<lparr>shouldHandle = False, confidence = 0, reasoning = ''Error occurred during evaluation'',
      suggestedActions = None, escalate = Some False\<rparr>"
    using evaluate_failure_degraded
            [where svc = "stub (\<lambda>ag. Resolved NonText) rejecting" and io = "(0, [])"
               and ag = HR and e = email1, THEN conjunct1, THEN mp, OF b]
    by simp
  have r3: "fst (evaluate (stub unstructured rejecting) Sales email1 (0, [])) =
     \<lparr>shouldHandle = False, confidence = 50, reasoning = ''Analysis completed'',
      suggestedActions = Some [], escalate = Some False\<rparr>"
    by (rule evaluate_failure_degraded
            [where svc = "stub unstructured rejecting" and io = "(0, [])"
               and ag = Sales and e = email1 and c = "''I cannot tell.''",
             THEN conjunct2, THEN conjunct2, THEN mp, OF c'])
  show ?thesis
    using r1 r2 r3 no_fields_unstructured by blast
qed

text \<open>
  C5 as stated fails: the reply \<open>I cannot tell.\<close> holds none of the expected fields, and
  for it CustomerSupport returns confidence 50 and \<open>escalate\<close> false, not the degraded
  decision with confidence 0 and \<open>escalate\<close> true.
\<close>

theorem unparsed_text_counterexample:
  "\<not> sublist ''SHOULD_HANDLE: true'' ''I cannot tell.'' \<and>
   \<not> confidence_present ''I cannot tell.'' \<and> \<not> reasoning_present ''I cannot tell.'' \<and>
   \<not> escalate_present ''I cannot tell.'' \<and> \<not> actions_present ''I cannot tell.'' \<and>
   unstructured CustomerSupport = Resolved (Text ''I cannot tell.'') \<and>
   fst (evaluate (stub unstructured rejecting) CustomerSupport email1 (0, [])) =
     \<lparr>shouldHandle = False, confidence = 50, reasoning = ''Analysis completed'',
      suggestedActions = Some [], escalate = Some False\<rparr> \<and>
   confidence (fst (evaluate (stub unstructured rejecting) CustomerSupport email1 (0, []))) \<noteq> 0 \<and>
   escalate (fst (evaluate (stub unstructured rejecting) CustomerSupport email1 (0, [])))
     \<noteq> Some True"
proof -
  have ev: "fst (evaluate (stub unstructured rejecting) CustomerSupport email1 (0, [])) =
     \<lparr>shouldHandle = False, confidence = 50, reasoning = ''Analysis completed'',
      suggestedActions = Some [], escalate = Some False\<rparr>"
    by code_simp
  show ?thesis
    unfolding ev using no_fields_unstructured by (simp add: unstructured_def)
qed

section \<open>Conflict resolution\<close>

lemma resolveConflict_fallback:
  assumes "fst (svc (fst io) (conflict_prompt st (first # others))) = out"
    and "out = Rejected \<or> out = Resolved NonText \<or>
         (\<exists>c. out = Resolved (Text c) \<and> \<not> agent_present c \<and> \<not> priority_present c)"
  shows "fst (resolveConflict svc st (first # others) io) =
           Inr (createTriageResult st (fst first) medium (fst first) (Some False))"
  using assms
  by (auto simp: resolveConflict_def invoke_def resolve_try_def resolve_catch_def
        agent_present_iff priority_present_iff split: prod.splits)

lemma makeRoutingDecision_conflict:
  "willingAgents st = first # second # others \<Longrightarrow>
     makeRoutingDecision svc st io = resolveConflict svc st (willingAgents st) io"
  by (simp add: makeRoutingDecision_def split: prod.splits)

text \<open>
  C4. In every state with two or more willing agents, when the conflict-resolution call
  fails or its reply cannot be parsed (the content is not a string, or it is a text that
  holds neither an assigned agent nor a priority), the result assigns a willing agent
  whose confidence no willing agent exceeds, at priority \<open>medium\<close>, with no human review.
\<close>

theorem conflict_fallback_highest:
  assumes "2 \<le> length (filter willing (agentDecisions st))"
    and "fst (svc (fst io) (conflict_prompt st (willingAgents st))) = out"
    and "out = Rejected \<or> out = Resolved NonText \<or>
         (\<exists>c. out = Resolved (Text c) \<and> \<not> agent_present c \<and> \<not> priority_present c)"
  shows "\<exists>r name d. fst (makeRoutingDecision svc st io) = Inr r \<and>
           (name, d) \<in> set (agentDecisions st) \<and> willing (name, d) \<and>
           (\<forall>entry \<in> set (agentDecisions st).
              willing entry \<longrightarrow> confidence (snd entry) \<le> confidence d) \<and>
           assignedAgent r = name \<and> priority r = medium \<and> \<not> requiresHumanReview r"
proof -
  from assms(1) have "2 \<le> length (willingAgents st)"
    by (simp add: length_willingAgents)
  then obtain first second others where w: "willingAgents st = first # second # others"
    by (cases "willingAgents st"; simp) (metis Suc_le_length_iff)
  obtain name d where f: "first = (name, d)"
    by (cases first)
  have "first \<in> set (willingAgents st)"
    by (simp add: w)
  then have mem: "(name, d) \<in> set (agentDecisions st)" and wl: "willing (name, d)"
    by (simp_all add: set_willingAgents f)
  have top: "\<forall>entry \<in> set (agentDecisions st).
               willing entry \<longrightarrow> confidence (snd entry) \<le> confidence d"
    using willingAgents_hd_highest [OF w] by (simp add: f)
  have "fst (makeRoutingDecision svc st io) =
          Inr (createTriageResult st name medium name (Some False))"
    unfolding makeRoutingDecision_conflict [OF w]
    using resolveConflict_fallback [of svc io st first "second # others" out] assms(2,3)
    by (simp add: w f)
  then show ?thesis
    using mem wl top by (auto simp: createTriageResult_fields)
qed

text \<open>CustomerSupport at 80 and Sales at 85, and a conflict call that is rejected.\<close>

theorem conflict_fallback_highest_witness:
  "2 \<le> length (filter willing (agentDecisions
          (state_of [(''SpamFilter'', decision False 20 False),
                     (''CustomerSupport'', decision True 80 False),
                     (''Sales'', decision True 85 False),
                     (''HR'', decision False 20 False)]))) \<and>
   (\<exists>r. fst (makeRoutingDecision (stub support_and_sales rejecting)
              (state_of [(''SpamFilter'', decision False 20 False),
                         (''CustomerSupport'', decision True 80 False),
                         (''Sales'', decision True 85 False),
                         (''HR'', decision False 20 False)]) (4, [])) = Inr r \<and>
        assignedAgent r = ''Sales'' \<and> priority r = medium \<and> \<not> requiresHumanReview r)"
proof -
  let ?st = "state_of [(''SpamFilter'', decision False 20 False),
                     (''CustomerSupport'', decision True 80 False),
                     (''Sales'', decision True 85 False),
                     (''HR'', decision False 20 False)]"
  let ?svc = "stub support_and_sales rejecting"
  have two: "2 \<le> length (filter willing (agentDecisions ?st))"
    by (simp add: state_of_def willing_def decision_def)
  have out: "fst (?svc (fst (4, [])) (conflict_prompt ?st (willingAgents ?st))) = Rejected"
    by (simp add: stub_def conflict_prompt_def rejecting_def Let_def)
  have cases: "Rejected = Rejected \<or> Rejected = Resolved NonText \<or>
         (\<exists>c. Rejected = Resolved (Text c) \<and> \<not> agent_present c \<and> \<not> priority_present c)"
    by simp
  have "\<exists>r name d. fst (makeRoutingDecision ?svc ?st (4, [])) = Inr r \<and>
           (name, d) \<in> set (agentDecisions ?st) \<and> willing (name, d) \<and>
           (\<forall>entry \<in> set (agentDecisions ?st).
              willing entry \<longrightarrow> confidence (snd entry) \<le> confidence d) \<and>
           assignedAgent r = name \<and> priority r = medium \<and> \<not> requiresHumanReview r"
    by (rule conflict_fallback_highest [where out = Rejected and io = "(4, [])"])
       (use two out in simp_all)
  then obtain r name d where r: "fst (makeRoutingDecision ?svc ?st (4, [])) = Inr r"
    and mem: "(name, d) \<in> set (agentDecisions ?st)" and wl: "willing (name, d)"
    and top: "\<forall>entry \<in> set (agentDecisions ?st).
                willing entry \<longrightarrow> confidence (snd entry) \<le> confidence d"
    and res: "assignedAgent r = name" "priority r = medium" "\<not> requiresHumanReview r"
    by blast
  have "name = ''Sales''"
    using mem wl top by (auto simp: state_of_def willing_def decision_def)
  then show ?thesis
    using two r res by blast
qed

text \<open>A match of the agent pattern is a run of word characters, not empty, right after
  the label.\<close>

lemma match_agent_word:
  "match_agent suf = Some w \<Longrightarrow>
     \<exists>post. suf = ''ASSIGNED_AGENT: '' @ w @ post \<and> w \<noteq> [] \<and> list_all is_word w \<and>
            (post = [] \<or> \<not> is_word (hd post))"
proof -
  assume "match_agent suf = Some w"
  then obtain rest where r: "suf = ''ASSIGNED_AGENT: '' @ rest"
    and w: "w = takeWhile is_word rest" and n: "w \<noteq> []"
    by (auto simp: match_agent_def Let_def after_label_Some_iff
          split: option.splits if_splits)
  have "rest = w @ dropWhile is_word rest"
    by (simp add: w)
  moreover have "list_all is_word w"
    unfolding w by (auto simp: list_all_iff dest: set_takeWhileD)
  moreover have "dropWhile is_word rest = [] \<or> \<not> is_word (hd (dropWhile is_word rest))"
    by (metis hd_dropWhile)
  ultimately show ?thesis
    using r n by (metis append_assoc)
qed

lemma regex_search_Some:
  "regex_search m s = Some r \<Longrightarrow> \<exists>suf. suffix suf s \<and> m suf = Some r"
  by (induction s) (auto simp: suffix_Cons split: option.splits)

lemma regex_search_agent_word:
  assumes "regex_search match_agent c = Some w"
  shows "\<exists>pre post. c = pre @ ''ASSIGNED_AGENT: '' @ w @ post \<and> w \<noteq> [] \<and>
           list_all is_word w \<and> (post = [] \<or> \<not> is_word (hd post))"
proof -
  from regex_search_Some [OF assms] obtain suf where s: "suffix suf c"
    and m: "match_agent suf = Some w" by blast
  from s obtain pre where "c = pre @ suf" by (auto simp: suffix_def)
  with match_agent_word [OF m] show ?thesis by blast
qed

text \<open>The routing decision always produces a result; where its assigned agent comes from.\<close>

lemma makeRoutingDecision_agent:
  "\<exists>r io'. makeRoutingDecision svc st io = (Inr r, io') \<and>
     (\<forall>c w. 2 \<le> length (willingAgents st) \<and>
            fst (svc (fst io) (conflict_prompt st (willingAgents st))) = Resolved (Text c) \<and>
            regex_search match_agent c = Some w \<longrightarrow> assignedAgent r = w) \<and>
     (\<not> (2 \<le> length (willingAgents st) \<and>
         (\<exists>c w. fst (svc (fst io) (conflict_prompt st (willingAgents st))) = Resolved (Text c) \<and>
                regex_search match_agent c = Some w)) \<longrightarrow>
        assignedAgent r = ''General'' \<or> assignedAgent r \<in> fst ` set (agentDecisions st))"
proof (cases "willingAgents st")
  case Nil
  then show ?thesis
    by (simp add: makeRoutingDecision_def createTriageResult_fields)
next
  case (Cons first rest)
  have fm: "first \<in> set (agentDecisions st)"
    using set_willingAgents [of st] Cons by auto
  then have fk: "fst first \<in> fst ` set (agentDecisions st)"
    by (rule imageI)
  show ?thesis
  proof (cases rest)
    case Nil
    then show ?thesis
      using Cons fk
      by (cases first) (simp add: makeRoutingDecision_def createTriageResult_fields)
  next
    case (Cons second others)
    have w: "willingAgents st = first # second # others"
      using \<open>willingAgents st = first # rest\<close> Cons by simp
    show ?thesis
      unfolding makeRoutingDecision_conflict [OF w]
      using fk
      by (auto simp: w resolveConflict_def invoke_def resolve_try_def resolve_catch_def
            createTriageResult_fields
            split: prod.splits llm_outcome.splits content.splits option.splits)
  qed
qed

text \<open>
  C6 (amended). \<open>triageEmail\<close> produces a result for every email and every behaviour of
  the service. Let \<open>out\<close> be the answer of the service to the conflict prompt of this run
  (the prompt built from the four recorded decisions, in the state of the world after
  the four evaluations). When the spam check did not end the triage, two or more agents
  are willing and \<open>out\<close> is a text in which the agent pattern matches a word, the assigned
  agent is exactly that word, whatever it is. In every other case the assigned agent is
  one of \<open>SpamFilter\<close>, \<open>CustomerSupport\<close>, \<open>Sales\<close>, \<open>HR\<close>, \<open>General\<close>. By
  \<open>regex_search_agent_word\<close> the matched word is a run of word characters, not empty, that
  follows \<open>ASSIGNED_AGENT: \<close> in the reply.
\<close>

theorem assigned_agent_range:
  assumes "evaluate svc SpamFilter e io = (d1, io1)"
    and "evaluate svc CustomerSupport e io1 = (d2, io2)"
    and "evaluate svc Sales e io2 = (d3, io3)"
    and "evaluate svc HR e io3 = (d4, io4)"
    and "st = \<lparr>email = e,
               agentDecisions = [(''SpamFilter'', d1), (''CustomerSupport'', d2), (''Sales'', d3),
                                 (''HR'', d4)],
               requiresEscalation = False\<rparr>"
    and "out = fst (svc (fst io4) (conflict_prompt st (willingAgents st)))"
  shows "\<exists>r io'. triageEmail svc e io = (Inr r, io') \<and>
     (\<forall>c w. \<not> (shouldHandle d1 \<and> confidence d1 > 70) \<and>
            2 \<le> length (filter willing (agentDecisions st)) \<and>
            out = Resolved (Text c) \<and> regex_search match_agent c = Some w
            \<longrightarrow> assignedAgent r = w) \<and>
     (\<not> (\<not> (shouldHandle d1 \<and> confidence d1 > 70) \<and>
         2 \<le> length (filter willing (agentDecisions st)) \<and>
         (\<exists>c w. out = Resolved (Text c) \<and> regex_search match_agent c = Some w))
        \<longrightarrow> assignedAgent r \<in> {''SpamFilter'', ''CustomerSupport'', ''Sales'', ''HR'', ''General''})"
proof (cases "shouldHandle d1 \<and> confidence d1 > 70")
  case True
  then show ?thesis
    using assms(1) by (simp add: triageEmail_def Let_def createTriageResult_fields)
next
  case False
  have t: "triageEmail svc e io = makeRoutingDecision svc st io4"
    unfolding assms(5) by (rule triageEmail_decide [OF assms(1-4) False])
  have keys: "fst ` set (agentDecisions st) = {''SpamFilter'', ''CustomerSupport'', ''Sales'', ''HR''}"
    by (auto simp: assms(5))
  from makeRoutingDecision_agent [of svc st io4]
  obtain r io' where r: "makeRoutingDecision svc st io4 = (Inr r, io')"
    and a: "\<forall>c w. 2 \<le> length (willingAgents st) \<and> out = Resolved (Text c) \<and>
            regex_search match_agent c = Some w \<longrightarrow> assignedAgent r = w"
    and b: "\<not> (2 \<le> length (willingAgents st) \<and>
         (\<exists>c w. out = Resolved (Text c) \<and> regex_search match_agent c = Some w)) \<longrightarrow>
        assignedAgent r = ''General'' \<or> assignedAgent r \<in> fst ` set (agentDecisions st)"
    unfolding assms(6) by blast
  have c1: "\<forall>c w. \<not> (shouldHandle d1 \<and> confidence d1 > 70) \<and>
            2 \<le> length (filter willing (agentDecisions st)) \<and>
            out = Resolved (Text c) \<and> regex_search match_agent c = Some w
            \<longrightarrow> assignedAgent r = w"
    using a unfolding length_willingAgents by blast
  have c2: "\<not> (\<not> (shouldHandle d1 \<and> confidence d1 > 70) \<and>
         2 \<le> length (filter willing (agentDecisions st)) \<and>
         (\<exists>c w. out = Resolved (Text c) \<and> regex_search match_agent c = Some w))
        \<longrightarrow> assignedAgent r \<in> {''SpamFilter'', ''CustomerSupport'', ''Sales'', ''HR'', ''General''}"
    using b False unfolding keys length_willingAgents by blast
  show ?thesis
    unfolding t using r c1 c2 by blast
qed

text \<open>CustomerSupport and Sales both willing: a conflict reply that names \<open>Legal\<close> assigns
  \<open>Legal\<close>; a rejected conflict call assigns one of the known agents.\<close>

theorem assigned_agent_range_witness:
  "regex_search match_agent
     (''ASSIGNED_AGENT: Legal'' @ [NL] @ ''PRIORITY: high'' @ [NL] @ ''REASONING: contract terms'')
     = Some ''Legal'' \<and>
   (\<exists>r io'. triageEmail (stub support_and_sales names_legal) email1 (0, []) = (Inr r, io') \<and>
      assignedAgent r = ''Legal'') \<and>
   (\<exists>r io'. triageEmail (stub support_and_sales rejecting) email1 (0, []) = (Inr r, io') \<and>
      assignedAgent r \<in> {''SpamFilter'', ''CustomerSupport'', ''Sales'', ''HR'', ''General''})"
proof -
  let ?p1 = "evaluate_prompt SpamFilter email1"
  let ?p2 = "evaluate_prompt CustomerSupport email1"
  let ?p3 = "evaluate_prompt Sales email1"
  let ?p4 = "evaluate_prompt HR email1"
  let ?st = "\<lparr>email = email1,
               agentDecisions = [(''SpamFilter'', decision False 20 False),
                                 (''CustomerSupport'', decision True 80 False),
                                 (''Sales'', decision True 85 False),
                                 (''HR'', decision False 20 False)],
               requiresEscalation = False\<rparr>"
  let ?txt = "''ASSIGNED_AGENT: Legal'' @ [NL] @ ''PRIORITY: high'' @ [NL] @ ''REASONING: contract terms''"
  have m: "regex_search match_agent ?txt = Some ''Legal''"
    by code_simp
  have nospam: "\<not> (shouldHandle (decision False 20 False) \<and> confidence (decision False 20 False) > 70)"
    by (simp add: decision_def)
  have two: "2 \<le> length (filter willing (agentDecisions ?st))"
    by (simp add: willing_def decision_def)
  have legal: "\<exists>r io'. triageEmail (stub support_and_sales names_legal) email1 (0, []) = (Inr r, io') \<and>
      assignedAgent r = ''Legal''"
  proof -
    let ?svc = "stub support_and_sales names_legal"
    have e1: "evaluate ?svc SpamFilter email1 (0, []) = (decision False 20 False, (1, [?p1]))"
      by code_simp
    have e2: "evaluate ?svc CustomerSupport email1 (1, [?p1]) = (decision True 80 False, (2, [?p1, ?p2]))"
      by code_simp
    have e3: "evaluate ?svc Sales email1 (2, [?p1, ?p2]) = (decision True 85 False, (3, [?p1, ?p2, ?p3]))"
      by code_simp
    have e4: "evaluate ?svc HR email1 (3, [?p1, ?p2, ?p3]) = (decision False 20 False, (4, [?p1, ?p2, ?p3, ?p4]))"
      by code_simp
    have out: "Resolved (Text ?txt) = fst (?svc (fst (4, [?p1, ?p2, ?p3, ?p4])) (conflict_prompt ?st (willingAgents ?st)))"
      by (simp add: stub_def conflict_prompt_def names_legal_def Let_def)
    from assigned_agent_range [OF e1 e2 e3 e4 refl out]
    obtain r io' where r: "triageEmail ?svc email1 (0, []) = (Inr r, io')"
      and a: "\<forall>c w. \<not> (shouldHandle (decision False 20 False) \<and> confidence (decision False 20 False) > 70) \<and>
            2 \<le> length (filter willing (agentDecisions ?st)) \<and>
            Resolved (Text ?txt) = Resolved (Text c) \<and> regex_search match_agent c = Some w
            \<longrightarrow> assignedAgent r = w"
      by blast
    have "assignedAgent r = ''Legal''"
      using a nospam two m by blast
    with r show ?thesis by blast
  qed
  have known: "\<exists>r io'. triageEmail (stub support_and_sales rejecting) email1 (0, []) = (Inr r, io') \<and>
      assignedAgent r \<in> {''SpamFilter'', ''CustomerSupport'', ''Sales'', ''HR'', ''General''}"
  proof -
    let ?svc = "stub support_and_sales rejecting"
    have e1: "evaluate ?svc SpamFilter email1 (0, []) = (decision False 20 False, (1, [?p1]))"
      by code_simp
    have e2: "evaluate ?svc CustomerSupport email1 (1, [?p1]) = (decision True 80 False, (2, [?p1, ?p2]))"
      by code_simp
    have e3: "evaluate ?svc Sales email1 (2, [?p1, ?p2]) = (decision True 85 False, (3, [?p1, ?p2, ?p3]))"
      by code_simp
    have e4: "evaluate ?svc HR email1 (3, [?p1, ?p2, ?p3]) = (decision False 20 False, (4, [?p1, ?p2, ?p3, ?p4]))"
      by code_simp
    have out: "Rejected = fst (?svc (fst (4, [?p1, ?p2, ?p3, ?p4])) (conflict_prompt ?st (willingAgents ?st)))"
      by (simp add: stub_def conflict_prompt_def rejecting_def Let_def)
    from assigned_agent_range [OF e1 e2 e3 e4 refl out]
    obtain r io' where r: "triageEmail ?svc email1 (0, []) = (Inr r, io')"
      and b: "\<not> (\<not> (shouldHandle (decision False 20 False) \<and> confidence (decision False 20 False) > 70) \<and>
         2 \<le> length (filter willing (agentDecisions ?st)) \<and>
         (\<exists>c w. Rejected = Resolved (Text c) \<and> regex_search match_agent c = Some w))
        \<longrightarrow> assignedAgent r \<in> {''SpamFilter'', ''CustomerSupport'', ''Sales'', ''HR'', ''General''}"
      by blast
    have "assignedAgent r \<in> {''SpamFilter'', ''CustomerSupport'', ''Sales'', ''HR'', ''General''}"
      using b by simp
    with r show ?thesis by blast
  qed
  show ?thesis using m legal known by blast
qed

text \<open>
  C6 as stated fails: with CustomerSupport and Sales both willing and a conflict reply
  that says \<open>ASSIGNED_AGENT: Legal\<close>, the email is assigned to \<open>Legal\<close>, which is neither an
  evaluator nor a fallback sentinel.
\<close>

theorem legal_agent_counterexample:
  "fst (triageEmail (stub support_and_sales names_legal) email1 (0, [])) =
     Inr \<lparr>emailId = ''email-001'', category = ''Legal'', priority = high,
           assignedAgent = ''Legal'', summary = ''Email categorized as Legal'',
           resultActions = [''Route to Legal team''], requiresHumanReview = False\<rparr> \<and>
   ''Legal'' \<notin> {''SpamFilter'', ''CustomerSupport'', ''Sales'', ''HR'', ''General'', ''Manual''}"
  by code_simp

section \<open>The batch runner: facts\<close>

text \<open>The loop with any accumulators: it appends the successes and the failures of the run.\<close>

lemma processEmails_acc:
  "fst (processEmails triage emails results errors s) =
     (results @ successes (run_each triage emails s), errors @ failures (run_each triage emails s))"
proof (induction emails arbitrary: results errors s)
  case Nil
  show ?case by simp
next
  case (Cons e es)
  obtain out s' where t: "triage e s = (out, s')"
    by (cases "triage e s")
  show ?case
  proof (cases out)
    case (Inl err)
    then show ?thesis using t Cons.IH [of results "errors @ [(email_id e, err)]" s'] by simp
  next
    case (Inr r)
    then show ?thesis using t Cons.IH [of "results @ [r]" errors s'] by simp
  qed
qed

lemma run_each_emails: "map fst (run_each triage emails s) = emails"
  by (induction emails arbitrary: s) simp_all

lemma length_successes_failures:
  "length (successes outs) + length (failures outs) = length outs"
  by (induction outs rule: successes.induct) simp_all

text \<open>
  C9. For every list of emails and every supervisor, the loop gives the emails to the
  supervisor one after the other in input order (\<open>run_each\<close> has one outcome per email,
  in that order), and returns the results of the emails that succeeded, in that order.
  An email whose triage raises is caught in the loop: its identifier and the error are
  logged, it adds nothing to the results, and the emails after it are still processed.
\<close>

theorem batch_in_order:
  "fst (processEmails triage emails [] [] s) =
     (successes (run_each triage emails s), failures (run_each triage emails s)) \<and>
   map fst (run_each triage emails s) = emails \<and>
   length (successes (run_each triage emails s)) + length (failures (run_each triage emails s))
     = length emails"
  using processEmails_acc [of triage emails "[]" "[]" s] run_each_emails [of triage emails s]
    length_successes_failures [of "run_each triage emails s"]
    length_map [of fst "run_each triage emails s"]
  by simp

text \<open>Three emails, the second of which makes the supervisor raise.\<close>

theorem batch_in_order_witness:
  "run_each failing_triage [email1, email2, email1] 0 =
     [(email1, Inr (createTriageResult (state_of []) ''General'' medium ''General'' (Some True))),
      (email2, Inl TypeError),
      (email1, Inr (createTriageResult (state_of []) ''General'' medium ''General'' (Some True)))] \<and>
   fst (processEmails failing_triage [email1, email2, email1] [] [] 0) =
     ([createTriageResult (state_of []) ''General'' medium ''General'' (Some True),
       createTriageResult (state_of []) ''General'' medium ''General'' (Some True)],
      [(''email-002'', TypeError)])"
proof -
  have r: "run_each failing_triage [email1, email2, email1] 0 =
     [(email1, Inr (createTriageResult (state_of []) ''General'' medium ''General'' (Some True))),
      (email2, Inl TypeError),
      (email1, Inr (createTriageResult (state_of []) ''General'' medium ''General'' (Some True)))]"
    by (simp add: failing_triage_def email1_def email2_def state_of_def)
  show ?thesis
    using batch_in_order [of failing_triage "[email1, email2, email1]" 0]
    unfolding r by (simp add: email2_def)
qed

section \<open>Two runs of the batch\<close>

text \<open>With a service that is deterministic on every request, no result depends on the
  state of the world a call starts in.\<close>

lemma evaluate_det:
  assumes "deterministic_on any_request svc"
  shows "fst (evaluate svc ag e io) = fst (evaluate svc ag e io')"
proof -
  have "fst (svc (fst io) (evaluate_prompt ag e)) = fst (svc (fst io') (evaluate_prompt ag e))"
    using assms by (simp add: deterministic_on_def any_request_def)
  then show ?thesis
    by (simp add: evaluate_decision)
qed

lemma resolveConflict_det:
  assumes "deterministic_on any_request svc"
  shows "fst (resolveConflict svc st candidates io) = fst (resolveConflict svc st candidates io')"
proof -
  have "fst (svc (fst io) (conflict_prompt st candidates))
          = fst (svc (fst io') (conflict_prompt st candidates))"
    using assms by (simp add: deterministic_on_def any_request_def)
  then show ?thesis
    by (auto simp: resolveConflict_def invoke_def split: prod.splits sum.splits)
qed

lemma makeRoutingDecision_det:
  assumes "deterministic_on any_request svc"
  shows "fst (makeRoutingDecision svc st io) = fst (makeRoutingDecision svc st io')"
  using resolveConflict_det [OF assms, of st "willingAgents st" io io']
  by (auto simp: makeRoutingDecision_def split: list.splits prod.splits)

lemma triageEmail_det:
  assumes "deterministic_on any_request svc"
  shows "fst (triageEmail svc e io) = fst (triageEmail svc e io')"
proof -
  obtain d1 io1 where e1: "evaluate svc SpamFilter e io = (d1, io1)" by (cases "evaluate svc SpamFilter e io")
  obtain d2 io2 where e2: "evaluate svc CustomerSupport e io1 = (d2, io2)" by (cases "evaluate svc CustomerSupport e io1")
  obtain d3 io3 where e3: "evaluate svc Sales e io2 = (d3, io3)" by (cases "evaluate svc Sales e io2")
  obtain d4 io4 where e4: "evaluate svc HR e io3 = (d4, io4)" by (cases "evaluate svc HR e io3")
  obtain d1' io1' where e1': "evaluate svc SpamFilter e io' = (d1', io1')" by (cases "evaluate svc SpamFilter e io'")
  obtain d2' io2' where e2': "evaluate svc CustomerSupport e io1' = (d2', io2')" by (cases "evaluate svc CustomerSupport e io1'")
  obtain d3' io3' where e3': "evaluate svc Sales e io2' = (d3', io3')" by (cases "evaluate svc Sales e io2'")
  obtain d4' io4' where e4': "evaluate svc HR e io3' = (d4', io4')" by (cases "evaluate svc HR e io3'")
  have d1: "d1' = d1" using evaluate_det [OF assms, of SpamFilter e io io'] e1 e1' by simp
  have d2: "d2' = d2" using evaluate_det [OF assms, of CustomerSupport e io1 io1'] e2 e2' by simp
  have d3: "d3' = d3" using evaluate_det [OF assms, of Sales e io2 io2'] e3 e3' by simp
  have d4: "d4' = d4" using evaluate_det [OF assms, of HR e io3 io3'] e4 e4' by simp
  show ?thesis
  proof (cases "shouldHandle d1 \<and> confidence d1 > 70")
    case True
    then show ?thesis
      using e1 e1' d1 by (simp add: triageEmail_def Let_def)
  next
    case False
    show ?thesis
      unfolding triageEmail_decide [OF e1 e2 e3 e4 False]
        triageEmail_decide [OF e1' [unfolded d1] e2' [unfolded d2] e3' [unfolded d3]
          e4' [unfolded d4] False]
      by (rule makeRoutingDecision_det [OF assms])
  qed
qed

lemma processEmails_det:
  assumes "\<And>e s s'. fst (triage e s) = fst (triage e s')"
  shows "fst (processEmails triage emails results errors s)
           = fst (processEmails triage emails results errors s')"
proof (induction emails arbitrary: results errors s s')
  case Nil
  show ?case by simp
next
  case (Cons e es)
  obtain out s1 where t: "triage e s = (out, s1)" by (cases "triage e s")
  obtain out' s1' where t': "triage e s' = (out', s1')" by (cases "triage e s'")
  have o: "out' = out" using assms [of e s s'] t t' by simp
  show ?case
  proof (cases out)
    case (Inl err)
    then show ?thesis
      using t t' o Cons.IH [of results "errors @ [(email_id e, err)]" s1 s1'] by simp
  next
    case (Inr r)
    then show ?thesis
      using t t' o Cons.IH [of "results @ [r]" errors s1 s1'] by simp
  qed
qed

lemma main_det:
  assumes "deterministic_on any_request svc"
  shows "fst (main has_api_key svc emails io) = fst (main has_api_key svc emails io')"
proof -
  obtain out s1 where p: "processEmails (triageEmail svc) emails [] [] io = (out, s1)"
    by (cases "processEmails (triageEmail svc) emails [] [] io")
  obtain out' s1' where p': "processEmails (triageEmail svc) emails [] [] io' = (out', s1')"
    by (cases "processEmails (triageEmail svc) emails [] [] io'")
  have "fst (processEmails (triageEmail svc) emails [] [] io)
          = fst (processEmails (triageEmail svc) emails [] [] io')"
    by (rule processEmails_det) (rule triageEmail_det [OF assms])
  then have "out' = out"
    by (simp add: p p')
  then show ?thesis
    by (simp add: main_def p p')
qed

text \<open>
  C10 (amended). When the service answers every request, the conflict prompt included,
  the same way in every state of the world, a second run of \<open>main\<close> over the same emails,
  started where the first run ended, returns the same list of results.
\<close>

theorem batch_deterministic:
  assumes "deterministic_on any_request svc"
  shows "fst (main has_api_key svc emails (snd (main has_api_key svc emails io)))
           = fst (main has_api_key svc emails io)"
  by (rule main_det [OF assms])

text \<open>Two runs over two emails with a stub whose answers depend on the request only.\<close>

theorem batch_deterministic_witness:
  "deterministic_on any_request (stub support_and_sales names_legal) \<and>
   fst (main True (stub support_and_sales names_legal) [email1, email2]
          (snd (main True (stub support_and_sales names_legal) [email1, email2] (0, []))))
     = fst (main True (stub support_and_sales names_legal) [email1, email2] (0, []))"
proof -
  have d: "deterministic_on any_request (stub support_and_sales names_legal)"
    by (auto simp: deterministic_on_def stub_def names_legal_def split: request.splits)
  show ?thesis
    using batch_deterministic [OF d, of True "[email1, email2]" "(0, [])"] d by simp
qed

text \<open>
  C10 as stated fails: the evaluators of this stub answer the same way in every state,
  CustomerSupport and Sales are both willing, and the reply to the conflict prompt
  changes between the runs. The first run assigns the email to \<open>Sales\<close>, the second to
  \<open>CustomerSupport\<close>.
\<close>

theorem flip_counterexample:
  "deterministic_on is_evaluate (stub support_and_sales flip) \<and>
   fst (main True (stub support_and_sales flip) [email1] (0, [])) =
     Some ([\<lparr>emailId = ''email-001'', category = ''Sales'', priority = medium,
              assignedAgent = ''Sales'', summary = ''as requested'', resultActions = [''act''],
              requiresHumanReview = False\<rparr>], []) \<and>
   fst (main True (stub support_and_sales flip) [email1]
          (snd (main True (stub support_and_sales flip) [email1] (0, [])))) =
     Some ([\<lparr>emailId = ''email-001'', category = ''CustomerSupport'', priority = medium,
              assignedAgent = ''CustomerSupport'', summary = ''as requested'',
              resultActions = [''act''], requiresHumanReview = False\<rparr>], [])"
proof -
  have d: "deterministic_on is_evaluate (stub support_and_sales flip)"
    by (auto simp: deterministic_on_def stub_def split: request.splits)
  have r1: "fst (main True (stub support_and_sales flip) [email1] (0, [])) =
     Some ([\<lparr>emailId = ''email-001'', category = ''Sales'', priority = medium,
              assignedAgent = ''Sales'', summary = ''as requested'', resultActions = [''act''],
              requiresHumanReview = False\<rparr>], [])"
    by code_simp
  have r2: "fst (main True (stub support_and_sales flip) [email1]
          (snd (main True (stub support_and_sales flip) [email1] (0, [])))) =
     Some ([\<lparr>emailId = ''email-001'', category = ''CustomerSupport'', priority = medium,
              assignedAgent = ''CustomerSupport'', summary = ''as requested'',
              resultActions = [''act''], requiresHumanReview = False\<rparr>], [])"
    by code_simp
  show ?thesis using d r1 r2 by blast
qed

end
